theory Spec2Isabelle
  imports Complex_Main
begin

section \<open>Strings as Python sees them\<close>

text \<open>
  A \<open>string\<close> is a Python \<open>str\<close> whose characters have code points below 256, the characters
  \<open>char\<close> holds. The classes \<open>\d\<close>, \<open>\w\<close> and \<open>\s\<close> of the regular expressions (which are
  Unicode classes for a \<open>str\<close> pattern), \<open>str.strip\<close> and \<open>str.lower\<close> are Python's on these
  characters.
\<close>

definition in_range :: "nat \<Rightarrow> nat \<Rightarrow> char \<Rightarrow> bool" where
  "in_range lo hi c = (lo \<le> of_char c \<and> (of_char c :: nat) \<le> hi)"

text \<open>\<open>\d\<close>: the decimal digits, which below 256 are \<open>0\<close> to \<open>9\<close>.\<close>

definition is_digit :: "char \<Rightarrow> bool" where
  "is_digit c = in_range 0x30 0x39 c"

text \<open>\<open>[a-zA-Z]\<close>.\<close>

definition is_letter :: "char \<Rightarrow> bool" where
  "is_letter c = (in_range 0x41 0x5A c \<or> in_range 0x61 0x7A c)"

text \<open>\<open>\w\<close>: the underscore and the characters for which \<open>str.isalnum\<close> holds, which are the
  ASCII letters and digits, the letters of Latin-1, and its ordinal indicators, superscript
  digits, micro sign and fractions.\<close>

definition is_word :: "char \<Rightarrow> bool" where
  "is_word c =
     (is_letter c \<or> is_digit c \<or> c = CHR ''_'' \<or>
      in_range 0xAA 0xAA c \<or> in_range 0xB2 0xB3 c \<or> in_range 0xB5 0xB5 c \<or>
      in_range 0xB9 0xBA c \<or> in_range 0xBC 0xBE c \<or> in_range 0xC0 0xD6 c \<or>
      in_range 0xD8 0xF6 c \<or> in_range 0xF8 0xFF c)"

text \<open>\<open>\s\<close> and the characters \<open>str.strip()\<close> removes: those for which \<open>str.isspace\<close> holds,
  the next-line control and the no-break space among them.\<close>

definition is_space :: "char \<Rightarrow> bool" where
  "is_space c =
     (in_range 0x09 0x0D c \<or> in_range 0x1C 0x20 c \<or> in_range 0x85 0x85 c \<or>
      in_range 0xA0 0xA0 c)"

text \<open>\<open>str.lower\<close> of one character: the capital letters of ASCII and of Latin-1 move up by
  32, which sets their sixth bit.\<close>

definition lower_char :: "char \<Rightarrow> char" where
  "lower_char c =
     (if in_range 0x41 0x5A c \<or> in_range 0xC0 0xD6 c \<or> in_range 0xD8 0xDE c
      then (case c of Char b0 b1 b2 b3 b4 b5 b6 b7 \<Rightarrow> Char b0 b1 b2 b3 b4 True b6 b7)
      else c)"

definition py_lower :: "string \<Rightarrow> string" where
  "py_lower s = map lower_char s"

definition py_strip :: "string \<Rightarrow> string" where
  "py_strip s = rev (dropWhile is_space (rev (dropWhile is_space s)))"

text \<open>\<open>s.startswith(p)\<close>.\<close>

fun starts_with :: "string \<Rightarrow> string \<Rightarrow> bool" where
  "starts_with [] s = True"
| "starts_with (p # ps) [] = False"
| "starts_with (p # ps) (c # cs) = (p = c \<and> starts_with ps cs)"

text \<open>\<open>P\<close> holds of some suffix of the string: a regular expression searched at every position.\<close>

fun any_suffix :: "(string \<Rightarrow> bool) \<Rightarrow> string \<Rightarrow> bool" where
  "any_suffix P [] = P []"
| "any_suffix P (c # cs) = (P (c # cs) \<or> any_suffix P cs)"

text \<open>\<open>sub in s\<close>, and \<open>re.search\<close> of a literal.\<close>

definition has_sub :: "string \<Rightarrow> string \<Rightarrow> bool" where
  "has_sub sub s = any_suffix (starts_with sub) s"

text \<open>
  \<open>re.search\<close> of literals joined by \<open>.?\<close> (\<open>a.?b.?c\<close>): between two literals stands at
  most one character other than a newline.
\<close>

fun gaps_here :: "string list \<Rightarrow> string \<Rightarrow> bool" where
  "gaps_here [] s = True"
| "gaps_here [a] s = starts_with a s"
| "gaps_here (a # b # rest) s =
     (starts_with a s \<and>
      (let r = drop (length a) s in
       gaps_here (b # rest) r \<or>
       (case r of [] \<Rightarrow> False | c # r' \<Rightarrow> c \<noteq> CHR 0x0A \<and> gaps_here (b # rest) r')))"

definition has_gaps :: "string list \<Rightarrow> string \<Rightarrow> bool" where
  "has_gaps lits s = any_suffix (gaps_here lits) s"

text \<open>
  \<open>re.search\<close> of \<open>(lit1|lit2|...)([class]+)\<close>: the leftmost position where one of the literals
  (tried in order) is followed by a character of the class; the literal found and the longest
  run of the class after it.
\<close>

fun run_after :: "string list \<Rightarrow> (char \<Rightarrow> bool) \<Rightarrow> string \<Rightarrow> (string \<times> string) option" where
  "run_after [] cls s = None"
| "run_after (lit # lits) cls s =
     (if starts_with lit s \<and> takeWhile cls (drop (length lit) s) \<noteq> []
      then Some (lit, takeWhile cls (drop (length lit) s))
      else run_after lits cls s)"

fun search_run :: "string list \<Rightarrow> (char \<Rightarrow> bool) \<Rightarrow> string \<Rightarrow> (string \<times> string) option" where
  "search_run lits cls [] = None"
| "search_run lits cls (c # cs) =
     (case run_after lits cls (c # cs) of
        Some r \<Rightarrow> Some r
      | None \<Rightarrow> search_run lits cls cs)"

text \<open>
  \<open>re.findall\<close> of a pattern without groups that matches no empty string: \<open>m\<close> gives the
  match at the start of a string. After a match the search goes on behind it; \<open>skip\<close> counts
  the characters of the last match still to pass.
\<close>

fun findall_from :: "(string \<Rightarrow> string option) \<Rightarrow> nat \<Rightarrow> string \<Rightarrow> string list" where
  "findall_from m skip [] = []"
| "findall_from m skip (c # cs) =
     (if 0 < skip then findall_from m (skip - 1) cs
      else (case m (c # cs) of
              None \<Rightarrow> findall_from m 0 cs
            | Some t \<Rightarrow> t # findall_from m (length t - 1) cs))"

definition re_findall :: "(string \<Rightarrow> string option) \<Rightarrow> string \<Rightarrow> string list" where
  "re_findall m s = findall_from m 0 s"

text \<open>\<open>s.split(sep)\<close> for a non-empty separator: never the empty list.\<close>

function py_split :: "string \<Rightarrow> string \<Rightarrow> string list" where
  "py_split sep [] = [[]]"
| "py_split sep (c # cs) =
     (if sep \<noteq> [] \<and> starts_with sep (c # cs)
      then [] # py_split sep (drop (length sep) (c # cs))
      else (case py_split sep cs of [] \<Rightarrow> [[c]] | w # ws \<Rightarrow> (c # w) # ws))"
  by pat_completeness auto
termination
  by (relation "measure (\<lambda>(sep, s). length s)") (auto simp: neq_Nil_conv)

text \<open>\<open>s.replace(old, '')\<close>.\<close>

definition py_remove :: "string \<Rightarrow> string \<Rightarrow> string" where
  "py_remove old s = concat (py_split old s)"

text \<open>\<open>sep.join(xs)\<close>.\<close>

fun py_join :: "string \<Rightarrow> string list \<Rightarrow> string" where
  "py_join sep [] = []"
| "py_join sep [x] = x"
| "py_join sep (x # y # ys) = x @ sep @ py_join sep (y # ys)"

section \<open>The parsed page\<close>

text \<open>
  What \<open>BeautifulSoup(content, 'html.parser')\<close> returns: a tree of tags, each with its name,
  its attributes and its children, and of the strings \<open>get_text\<close> reports. The document itself
  is the root tag. An attribute's value is kept as the string the page has; a \<open>class\<close> is
  matched by a keyword pattern exactly when one of its space-separated names is, that is when
  the whole value is.
\<close>

datatype node = Text string | Tag string "(string \<times> string) list" "node list"

text \<open>The elements below a node in document order (\<open>descendants\<close>, \<open>next_elements\<close>).\<close>

fun descendants :: "node \<Rightarrow> node list" where
  "descendants (Text s) = []"
| "descendants (Tag n a cs) = concat (map (\<lambda>c. c # descendants c) cs)"

fun all_strings :: "node \<Rightarrow> string list" where
  "all_strings (Text s) = [s]"
| "all_strings (Tag n a cs) = concat (map all_strings cs)"

text \<open>\<open>get_text()\<close>, \<open>get_text(strip=True)\<close> and \<open>get_text(separator='\n', strip=True)\<close>.\<close>

definition get_text :: "node \<Rightarrow> string" where
  "get_text d = concat (all_strings d)"

definition stripped_strings :: "node \<Rightarrow> string list" where
  "stripped_strings d = filter (\<lambda>s. s \<noteq> []) (map py_strip (all_strings d))"

definition get_text_strip :: "node \<Rightarrow> string" where
  "get_text_strip d = concat (stripped_strings d)"

definition get_text_lines :: "node \<Rightarrow> string" where
  "get_text_lines d = py_join [CHR 0x0A] (stripped_strings d)"

text \<open>\<open>tag.get(key, '')\<close> and \<open>tag.get(key)\<close>.\<close>

fun attr :: "string \<Rightarrow> node \<Rightarrow> string option" where
  "attr k (Text s) = None"
| "attr k (Tag n a cs) = map_of a k"

definition attr_or_empty :: "string \<Rightarrow> node \<Rightarrow> string" where
  "attr_or_empty k x = (case attr k x of None \<Rightarrow> [] | Some v \<Rightarrow> v)"

fun has_name :: "string list \<Rightarrow> node \<Rightarrow> bool" where
  "has_name ns (Text s) = False"
| "has_name ns (Tag n a cs) = (n \<in> set ns)"

text \<open>An attribute that is present and in which one of the keywords is found.\<close>

definition attr_has :: "string \<Rightarrow> string list \<Rightarrow> node \<Rightarrow> bool" where
  "attr_has k kws x = (case attr k x of None \<Rightarrow> False | Some v \<Rightarrow> list_ex (\<lambda>kw. has_sub kw v) kws)"

text \<open>\<open>find_all(names, attrs)\<close> and \<open>find(names, attrs)\<close> with the filter \<open>P\<close> on the attributes.\<close>

definition find_all :: "string list \<Rightarrow> (node \<Rightarrow> bool) \<Rightarrow> node \<Rightarrow> node list" where
  "find_all ns P d = filter (\<lambda>x. has_name ns x \<and> P x) (descendants d)"

definition find_first :: "string list \<Rightarrow> (node \<Rightarrow> bool) \<Rightarrow> node \<Rightarrow> node option" where
  "find_first ns P d = List.find (\<lambda>x. has_name ns x \<and> P x) (descendants d)"

section \<open>Decoded JSON and the Python operations the scraper applies to it\<close>

text \<open>
  What \<open>json.loads\<close> returns: \<open>None\<close>, a bool, an int, a float (a rational here; NaN and
  the infinities are left out), a str, a list or a dict (its keys distinct, in their order).
  \<open>JNull\<close> is Python's \<open>None\<close>, also where it is the default of \<open>dict.get\<close>.
\<close>

datatype json = JNull | JBool bool | JInt int | JFloat rat | JStr string
  | JArr "json list" | JObj "(string \<times> json) list"

fun truthy :: "json \<Rightarrow> bool" where
  "truthy JNull = False"
| "truthy (JBool b) = b"
| "truthy (JInt i) = (i \<noteq> 0)"
| "truthy (JFloat r) = (r \<noteq> 0)"
| "truthy (JStr s) = (s \<noteq> [])"
| "truthy (JArr xs) = (xs \<noteq> [])"
| "truthy (JObj kvs) = (kvs \<noteq> [])"

text \<open>\<open>key in v\<close> for a str key; \<open>None\<close> is the TypeError of a value that is no container.\<close>

fun py_in :: "string \<Rightarrow> json \<Rightarrow> bool option" where
  "py_in k (JObj kvs) = Some (map_of kvs k \<noteq> None)"
| "py_in k (JArr xs) = Some (JStr k \<in> set xs)"
| "py_in k (JStr s) = Some (has_sub k s)"
| "py_in k v = None"

text \<open>\<open>v[key]\<close> for a str key: a KeyError or a TypeError is \<open>None\<close>.\<close>

fun py_getitem :: "json \<Rightarrow> string \<Rightarrow> json option" where
  "py_getitem (JObj kvs) k = map_of kvs k"
| "py_getitem v k = None"

text \<open>\<open>v[0]\<close>: an IndexError, a KeyError or a TypeError is \<open>None\<close>.\<close>

fun first_item :: "json \<Rightarrow> json option" where
  "first_item (JArr (x # xs)) = Some x"
| "first_item (JStr (c # cs)) = Some (JStr [c])"
| "first_item v = None"

text \<open>\<open>for x in v\<close>: a dict gives its keys, a str its characters; the rest raise.\<close>

fun py_iter :: "json \<Rightarrow> json list option" where
  "py_iter (JArr xs) = Some xs"
| "py_iter (JObj kvs) = Some (map (\<lambda>kv. JStr (fst kv)) kvs)"
| "py_iter (JStr s) = Some (map (\<lambda>c. JStr [c]) s)"
| "py_iter v = None"

text \<open>\<open>d.get(key, default)\<close>.\<close>

definition dict_get :: "(string \<times> json) list \<Rightarrow> string \<Rightarrow> json \<Rightarrow> json" where
  "dict_get d k dflt = (case map_of d k of None \<Rightarrow> dflt | Some v \<Rightarrow> v)"

section \<open>The data model (app/models/insights.py)\<close>

record FAQ =
  question :: string
  answer :: string

record Socials =
  instagram :: "string option"
  facebook :: "string option"
  tiktok :: "string option"
  twitter :: "string option"
  youtube :: "string option"
  linkedin :: "string option"
  pinterest :: "string option"

text \<open>
  \<open>emails\<close> and \<open>phones\<close> are \<open>list(set(...))\<close>: a list without duplicates in an order Python
  does not fix, kept here as the set of its elements.
\<close>

record Contact =
  emails :: "string set"
  phones :: "string set"

record Policies =
  privacy :: "string option"
  return_policy :: "string option"
  refund :: "string option"
  terms :: "string option"

record Links =
  order_tracking :: "string option"
  contact_us :: "string option"
  blogs :: "string option"
  shipping :: "string option"
  careers :: "string option"

text \<open>The fields \<open>id\<close> and \<open>image\<close> of \<open>Product\<close> are \<open>id_p\<close> and \<open>image_p\<close> here: \<open>id\<close> and
  \<open>image\<close> are constants of HOL.\<close>

record Product =
  id_p :: "string option"
  title :: string
  handle :: "string option"
  description :: "string option"
  price :: "string option"
  image_p :: "string option"
  url :: "string option"
  tags :: "string list"
  variants :: "(string \<times> json) list list option"

record BrandContext =
  brand :: string
  products :: "Product list"
  hero_products :: "Product list"
  policies :: Policies
  faqs :: "FAQ list"
  socials :: Socials
  contact :: Contact
  about :: "string option"
  links :: Links

text \<open>The defaults of the models: \<open>Socials()\<close>, \<open>Contact()\<close>, \<open>Policies()\<close>, \<open>Links()\<close>.\<close>

definition Socials_default :: Socials where
  "Socials_default = \<lparr>instagram = None, facebook = None, tiktok = None, twitter = None,
                       youtube = None, linkedin = None, pinterest = None\<rparr>"

definition Contact_default :: Contact where
  "Contact_default = \<lparr>emails = {}, phones = {}\<rparr>"

definition Policies_default :: Policies where
  "Policies_default = \<lparr>privacy = None, return_policy = None, refund = None, terms = None\<rparr>"

definition Links_default :: Links where
  "Links_default = \<lparr>order_tracking = None, contact_us = None, blogs = None, shipping = None,
                     careers = None\<rparr>"

section \<open>The world outside the scraper\<close>

text \<open>
  The values \<open>Product(...)\<close> is called with, before pydantic validates them.
\<close>

record product_args =
  arg_id :: string
  arg_title :: json
  arg_handle :: json
  arg_description :: json
  arg_price :: json
  arg_image :: json
  arg_url :: string
  arg_tags :: json
  arg_variants :: json

text \<open>The outcome of one \<open>session.get\<close>: the body and the status, an \<open>aiohttp.ClientError\<close>,
  or another exception (a timeout, a body that does not decode).\<close>

datatype response = Resp string nat | ClientError | OtherError

text \<open>
  The libraries and the network, as parameters of every function of the scraper:
  \<^item> \<open>http_get\<close>: the answer to a GET, which may depend on the requests made before it in
    the run (the first argument);
  \<^item> \<open>html_parser\<close>: \<open>BeautifulSoup(content, 'html.parser')\<close>;
  \<^item> \<open>json_loads\<close>: \<open>json.loads\<close>, \<open>None\<close> when it raises;
  \<^item> \<open>urljoin\<close>: \<open>urllib.parse.urljoin\<close>, \<open>None\<close> when it raises ValueError;
  \<^item> \<open>netloc\<close>: \<open>urlparse(url).netloc\<close>;
  \<^item> \<open>py_str\<close>: \<open>str(v)\<close>;
  \<^item> \<open>Product_init\<close>: pydantic's validation in \<open>Product(...)\<close>, \<open>None\<close> when it raises.
\<close>

record env =
  http_get :: "string list \<Rightarrow> string \<Rightarrow> response"
  html_parser :: "string \<Rightarrow> node"
  json_loads :: "string \<Rightarrow> json option"
  urljoin :: "string \<Rightarrow> string \<Rightarrow> string option"
  netloc :: "string \<Rightarrow> string"
  py_str :: "json \<Rightarrow> string"
  Product_init :: "product_args \<Rightarrow> Product option"

section \<open>The scraper (app/services/scraper.py)\<close>

datatype exc = WebsiteNotFoundException | InvalidShopifyStoreError | OtherException

text \<open>
  The object's fields, and three more that record what the run did: the URLs requested, in
  order, and how many sessions were created and closed.
\<close>

record scraper =
  base_url :: string
  session :: bool
  soup :: "node option"
  is_shopify :: bool
  fetched :: "string list"
  opened :: nat
  closed :: nat

text \<open>\<open>__init__\<close>, for a URL that is already normalized.\<close>

definition new_scraper :: "string \<Rightarrow> scraper" where
  "new_scraper u = \<lparr>base_url = u, session = False, soup = None, is_shopify = False,
                     fetched = [], opened = 0, closed = 0\<rparr>"

definition init_session :: "scraper \<Rightarrow> scraper" where
  "init_session s = (if session s then s else s\<lparr>session := True, opened := opened s + 1\<rparr>)"

definition close_session :: "scraper \<Rightarrow> scraper" where
  "close_session s = (if session s then s\<lparr>session := False, closed := closed s + 1\<rparr> else s)"

definition fetch_url :: "env \<Rightarrow> string \<Rightarrow> scraper \<Rightarrow> (exc + string \<times> nat) \<times> scraper" where
  "fetch_url E u s =
     (let s1 = init_session s;
          s2 = s1\<lparr>fetched := fetched s1 @ [u]\<rparr>
      in case http_get E (fetched s1) u of
           Resp content status \<Rightarrow> (Inr (content, status), s2)
         | ClientError \<Rightarrow> (Inl WebsiteNotFoundException, s2)
         | OtherError \<Rightarrow> (Inl OtherException, s2))"

definition shopify_indicators :: "string \<Rightarrow> node \<Rightarrow> bool" where
  "shopify_indicators content d =
     (has_sub ''Shopify.theme'' content \<or>
      has_sub ''cdn.shopify.com'' content \<or>
      has_sub ''myshopify.com'' content \<or>
      find_first [''link''] (attr_has ''href'' [''cdn.shopify.com'']) d \<noteq> None \<or>
      find_first [''script''] (attr_has ''src'' [''cdn.shopify.com'']) d \<noteq> None)"

definition check_is_shopify :: "env \<Rightarrow> scraper \<Rightarrow> (exc + bool) \<times> scraper" where
  "check_is_shopify E s =
     (case fetch_url E (base_url s) s of
        (Inl e, s1) \<Rightarrow> (Inl e, s1)
      | (Inr (content, status), s1) \<Rightarrow>
          if status \<noteq> 200 then (Inl WebsiteNotFoundException, s1)
          else let d = html_parser E content;
                   b = shopify_indicators content d
               in (Inr b, s1\<lparr>soup := Some d, is_shopify := b\<rparr>))"

subsection \<open>Products\<close>

text \<open>
  \<open>_get_product_price\<close> and \<open>_get_product_image\<close> are one function of the collection and the
  key. \<open>None\<close> is an exception, \<open>Some JNull\<close> the value \<open>None\<close>.
\<close>

definition first_field :: "string \<Rightarrow> string \<Rightarrow> (string \<times> json) list \<Rightarrow> json option" where
  "first_field coll key pd =
     (case map_of pd coll of
        None \<Rightarrow> Some JNull
      | Some v \<Rightarrow>
          if truthy v then
            (case first_item v of
               None \<Rightarrow> None
             | Some x \<Rightarrow>
                 (case py_in key x of
                    None \<Rightarrow> None
                  | Some found \<Rightarrow> if found then py_getitem x key else Some JNull))
          else Some JNull)"

definition get_product_price :: "(string \<times> json) list \<Rightarrow> json option" where
  "get_product_price pd = first_field ''variants'' ''price'' pd"

definition get_product_image :: "(string \<times> json) list \<Rightarrow> json option" where
  "get_product_image pd = first_field ''images'' ''src'' pd"

text \<open>The \<open>tags\<close> argument: the list as it is, or the string split at \<open>', '\<close>; anything else
  has no \<open>split\<close>.\<close>

definition product_tags :: "(string \<times> json) list \<Rightarrow> json option" where
  "product_tags pd =
     (case map_of pd ''tags'' of
        None \<Rightarrow> Some (JArr (map JStr (py_split '', '' [])))
      | Some (JArr xs) \<Rightarrow> Some (JArr xs)
      | Some (JStr t) \<Rightarrow> Some (JArr (map JStr (py_split '', '' t)))
      | Some other \<Rightarrow> None)"

text \<open>One \<open>Product(...)\<close> of the loop; \<open>None\<close> when any step raises.\<close>

definition make_product :: "env \<Rightarrow> string \<Rightarrow> json \<Rightarrow> Product option" where
  "make_product E base product_data =
     (case product_data of
        JObj pd \<Rightarrow>
          (case get_product_price pd of None \<Rightarrow> None | Some pr \<Rightarrow>
           case get_product_image pd of None \<Rightarrow> None | Some im \<Rightarrow>
           case urljoin E base (''/products/'' @ py_str E (dict_get pd ''handle'' JNull)) of
             None \<Rightarrow> None | Some u \<Rightarrow>
           case product_tags pd of None \<Rightarrow> None | Some tg \<Rightarrow>
             Product_init E
               \<lparr>arg_id = py_str E (dict_get pd ''id'' JNull),
                arg_title = dict_get pd ''title'' (JStr []),
                arg_handle = dict_get pd ''handle'' (JStr []),
                arg_description = dict_get pd ''body_html'' (JStr []),
                arg_price = pr,
                arg_image = im,
                arg_url = u,
                arg_tags = tg,
                arg_variants = dict_get pd ''variants'' (JArr [])\<rparr>)
      | other \<Rightarrow> None)"

text \<open>The inner loop: appends until a record raises. The flag tells whether it ran through.\<close>

fun convert_all :: "env \<Rightarrow> string \<Rightarrow> json list \<Rightarrow> Product list \<Rightarrow> bool \<times> Product list" where
  "convert_all E base [] acc = (True, acc)"
| "convert_all E base (pd # pds) acc =
     (case make_product E base pd of
        None \<Rightarrow> (False, acc)
      | Some p \<Rightarrow> convert_all E base pds (acc @ [p]))"

text \<open>The body of the \<open>try\<close> for one endpoint. The flag is the \<open>break\<close>; every exception
  leaves the loop going.\<close>

definition try_endpoint ::
  "env \<Rightarrow> string \<Rightarrow> Product list \<Rightarrow> scraper \<Rightarrow> (bool \<times> Product list) \<times> scraper" where
  "try_endpoint E endpoint acc s =
     (case urljoin E (base_url s) endpoint of
        None \<Rightarrow> ((False, acc), s)
      | Some u \<Rightarrow>
          (case fetch_url E u s of
             (Inl e, s1) \<Rightarrow> ((False, acc), s1)
           | (Inr (content, status), s1) \<Rightarrow>
               if status = 200 then
                 (case json_loads E content of
                    None \<Rightarrow> ((False, acc), s1)
                  | Some data \<Rightarrow>
                      (case py_in ''products'' data of
                         None \<Rightarrow> ((False, acc), s1)
                       | Some found \<Rightarrow>
                           if found then
                             (case py_getitem data ''products'' of
                                None \<Rightarrow> ((False, acc), s1)
                              | Some v \<Rightarrow>
                                  (case py_iter v of
                                     None \<Rightarrow> ((False, acc), s1)
                                   | Some items \<Rightarrow> (convert_all E (base_url s1) items acc, s1)))
                           else ((False, acc), s1)))
               else ((False, acc), s1)))"

fun products_loop ::
  "env \<Rightarrow> string list \<Rightarrow> Product list \<Rightarrow> scraper \<Rightarrow> Product list \<times> scraper" where
  "products_loop E [] acc s = (acc, s)"
| "products_loop E (endpoint # rest) acc s =
     (case try_endpoint E endpoint acc s of
        ((stop, acc'), s') \<Rightarrow> if stop then (acc', s') else products_loop E rest acc' s')"

definition product_endpoints :: "string list" where
  "product_endpoints = [''/products.json?limit=250'', ''/collections/all/products.json?limit=250'']"

definition fetch_products :: "env \<Rightarrow> scraper \<Rightarrow> Product list \<times> scraper" where
  "fetch_products E s = products_loop E product_endpoints [] s"

subsection \<open>Hero products\<close>

text \<open>The four extractors of the homepage start alike: \<open>if not self.soup\<close>, fetch the
  homepage (whatever its status) and parse it.\<close>

definition ensure_soup :: "env \<Rightarrow> scraper \<Rightarrow> (exc + node) \<times> scraper" where
  "ensure_soup E s =
     (case soup s of
        Some d \<Rightarrow> (Inr d, s)
      | None \<Rightarrow>
          (case fetch_url E (base_url s) s of
             (Inl e, s1) \<Rightarrow> (Inl e, s1)
           | (Inr (content, status), s1) \<Rightarrow>
               (let d = html_parser E content in (Inr d, s1\<lparr>soup := Some d\<rparr>))))"

text \<open>\<open>href.split('/')[-1].split('?')[0]\<close>.\<close>

definition handle_of_href :: "string \<Rightarrow> string" where
  "handle_of_href href =
     (case rev (py_split ''/'' href) of
        [] \<Rightarrow> []
      | seg # segs \<Rightarrow> (case py_split ''?'' seg of [] \<Rightarrow> [] | h # hs \<Rightarrow> h))"

fun hero_loop :: "Product list \<Rightarrow> node list \<Rightarrow> string set \<Rightarrow> Product list \<Rightarrow> Product list" where
  "hero_loop all_products [] product_handles hero = hero"
| "hero_loop all_products (link # rest) product_handles hero =
     (let h = handle_of_href (attr_or_empty ''href'' link) in
      if h \<noteq> [] \<and> h \<notin> product_handles then
        (case List.find (\<lambda>p. handle p = Some h) all_products of
           None \<Rightarrow> hero_loop all_products rest (insert h product_handles) hero
         | Some p \<Rightarrow> hero_loop all_products rest (insert h product_handles) (hero @ [p]))
      else hero_loop all_products rest product_handles hero)"

definition fetch_hero_products ::
  "env \<Rightarrow> Product list \<Rightarrow> scraper \<Rightarrow> (exc + Product list) \<times> scraper" where
  "fetch_hero_products E all_products s =
     (case ensure_soup E s of
        (Inl e, s1) \<Rightarrow> (Inl e, s1)
      | (Inr d, s1) \<Rightarrow>
          (Inr (take 10 (hero_loop all_products
                  (find_all [''a''] (attr_has ''href'' [''/products/'']) d) {} [])), s1))"

subsection \<open>Policies and the about text\<close>

text \<open>\<open>soup.find('main')\<close>, else the first \<open>div\<close> whose class has content, main or page.\<close>

definition main_content :: "node \<Rightarrow> node option" where
  "main_content d =
     (case find_first [''main''] (\<lambda>x. True) d of
        Some m \<Rightarrow> Some m
      | None \<Rightarrow> find_first [''div''] (attr_has ''class'' [''content'', ''main'', ''page'']) d)"

text \<open>The body of the \<open>try\<close> for one candidate path, the same in \<open>_fetch_policies\<close> and
  \<open>_fetch_about\<close>: \<open>Some\<close> text is the \<open>break\<close>.\<close>

definition try_text_path :: "env \<Rightarrow> string \<Rightarrow> scraper \<Rightarrow> string option \<times> scraper" where
  "try_text_path E path s =
     (case urljoin E (base_url s) path of
        None \<Rightarrow> (None, s)
      | Some u \<Rightarrow>
          (case fetch_url E u s of
             (Inl e, s1) \<Rightarrow> (None, s1)
           | (Inr (content, status), s1) \<Rightarrow>
               if status = 200 then
                 (case main_content (html_parser E content) of
                    None \<Rightarrow> (None, s1)
                  | Some m \<Rightarrow> (Some (get_text_lines m), s1))
               else (None, s1)))"

fun text_paths_loop :: "env \<Rightarrow> string list \<Rightarrow> scraper \<Rightarrow> string option \<times> scraper" where
  "text_paths_loop E [] s = (None, s)"
| "text_paths_loop E (path # rest) s =
     (case try_text_path E path s of
        (Some t, s') \<Rightarrow> (Some t, s')
      | (None, s') \<Rightarrow> text_paths_loop E rest s')"

datatype policy_type = Privacy | Return_policy | Refund | Terms

fun set_policy :: "policy_type \<Rightarrow> string \<Rightarrow> Policies \<Rightarrow> Policies" where
  "set_policy Privacy t p = p\<lparr>privacy := Some t\<rparr>"
| "set_policy Return_policy t p = p\<lparr>return_policy := Some t\<rparr>"
| "set_policy Refund t p = p\<lparr>refund := Some t\<rparr>"
| "set_policy Terms t p = p\<lparr>terms := Some t\<rparr>"

definition policy_paths :: "(policy_type \<times> string list) list" where
  "policy_paths =
     [(Privacy, [''/policies/privacy-policy'', ''/pages/privacy-policy'', ''/pages/privacy'']),
      (Return_policy, [''/policies/refund-policy'', ''/pages/refund-policy'', ''/pages/returns'',
                       ''/pages/return-policy'']),
      (Refund, [''/policies/refund-policy'', ''/pages/refund-policy'', ''/pages/refunds'']),
      (Terms, [''/policies/terms-of-service'', ''/pages/terms-of-service'', ''/pages/terms'',
               ''/pages/terms-conditions''])]"

fun policies_loop ::
  "env \<Rightarrow> (policy_type \<times> string list) list \<Rightarrow> Policies \<Rightarrow> scraper \<Rightarrow> Policies \<times> scraper" where
  "policies_loop E [] pol s = (pol, s)"
| "policies_loop E ((ptype, paths) # rest) pol s =
     (case text_paths_loop E paths s of
        (None, s') \<Rightarrow> policies_loop E rest pol s'
      | (Some t, s') \<Rightarrow> policies_loop E rest (set_policy ptype t pol) s')"

definition fetch_policies :: "env \<Rightarrow> scraper \<Rightarrow> Policies \<times> scraper" where
  "fetch_policies E s = policies_loop E policy_paths Policies_default s"

definition about_paths :: "string list" where
  "about_paths = [''/about'', ''/pages/about'', ''/pages/about-us'', ''/pages/our-story'',
                  ''/pages/story'']"

definition fetch_about :: "env \<Rightarrow> scraper \<Rightarrow> string option \<times> scraper" where
  "fetch_about E s = text_paths_loop E about_paths s"

subsection \<open>FAQs\<close>

text \<open>Method 1: one accordion item gives at most one pair.\<close>

definition accordion_item :: "node \<Rightarrow> FAQ list" where
  "accordion_item item =
     (case find_first [''summary'', ''h3'', ''h4'', ''button'', ''div'']
             (attr_has ''class'' [''question'', ''header'', ''title'']) item of
        None \<Rightarrow> []
      | Some question_elem \<Rightarrow>
          (case find_first [''div'', ''p''] (attr_has ''class'' [''answer'', ''content'', ''body'']) item of
             None \<Rightarrow> []
           | Some answer_elem \<Rightarrow>
               (let q = get_text_strip question_elem; a = get_text_strip answer_elem
                in if q \<noteq> [] \<and> a \<noteq> [] then [\<lparr>question = q, answer = a\<rparr>] else [])))"

definition accordion_pairs :: "node \<Rightarrow> FAQ list" where
  "accordion_pairs d =
     concat (map accordion_item
       (find_all [''details'', ''div''] (attr_has ''class'' [''accordion'', ''faq-item'', ''collapse'']) d))"

text \<open>Method 2: each question heading with the next \<open>p\<close> or \<open>div\<close> of the document
  (\<open>find_next\<close>), over the elements in document order.\<close>

fun flat_pairs_from :: "node list \<Rightarrow> FAQ list" where
  "flat_pairs_from [] = []"
| "flat_pairs_from (x # xs) =
     (if has_name [''h3'', ''h4'', ''strong''] x \<and> attr_has ''class'' [''question'', ''faq-question''] x
      then (case List.find (has_name [''p'', ''div'']) xs of
              None \<Rightarrow> []
            | Some answer_elem \<Rightarrow>
                (let q = get_text_strip x; a = get_text_strip answer_elem
                 in if q \<noteq> [] \<and> a \<noteq> [] then [\<lparr>question = q, answer = a\<rparr>] else []))
      else []) @ flat_pairs_from xs"

definition flat_pairs :: "node \<Rightarrow> FAQ list" where
  "flat_pairs d = flat_pairs_from (descendants d)"

text \<open>What one page with status 200 does to the list \<open>faqs\<close>.\<close>

definition faqs_of_page :: "node \<Rightarrow> FAQ list \<Rightarrow> FAQ list" where
  "faqs_of_page d faqs0 =
     (let faqs1 = faqs0 @ accordion_pairs d
      in if faqs1 = [] then faqs1 @ flat_pairs d else faqs1)"

definition try_faq_path ::
  "env \<Rightarrow> string \<Rightarrow> FAQ list \<Rightarrow> scraper \<Rightarrow> (bool \<times> FAQ list) \<times> scraper" where
  "try_faq_path E path faqs0 s =
     (case urljoin E (base_url s) path of
        None \<Rightarrow> ((False, faqs0), s)
      | Some u \<Rightarrow>
          (case fetch_url E u s of
             (Inl e, s1) \<Rightarrow> ((False, faqs0), s1)
           | (Inr (content, status), s1) \<Rightarrow>
               if status = 200 then
                 (let faqs1 = faqs_of_page (html_parser E content) faqs0
                  in ((faqs1 \<noteq> [], faqs1), s1))
               else ((False, faqs0), s1)))"

fun faqs_loop :: "env \<Rightarrow> string list \<Rightarrow> FAQ list \<Rightarrow> scraper \<Rightarrow> FAQ list \<times> scraper" where
  "faqs_loop E [] faqs0 s = (faqs0, s)"
| "faqs_loop E (path # rest) faqs0 s =
     (case try_faq_path E path faqs0 s of
        ((stop, faqs1), s') \<Rightarrow> if stop then (faqs1, s') else faqs_loop E rest faqs1 s')"

definition faq_paths :: "string list" where
  "faq_paths = [''/faq'', ''/pages/faq'', ''/pages/faqs'', ''/pages/frequently-asked-questions'']"

definition fetch_faqs :: "env \<Rightarrow> scraper \<Rightarrow> FAQ list \<times> scraper" where
  "fetch_faqs E s = faqs_loop E faq_paths [] s"

subsection \<open>Social handles\<close>

datatype platform = Instagram | Facebook | Tiktok | Twitter | Youtube | Linkedin | Pinterest

text \<open>The keys of \<open>social_patterns\<close> in the order of the dict, and \<open>re.search\<close> of each
  pattern.\<close>

definition social_patterns :: "platform list" where
  "social_patterns = [Instagram, Facebook, Tiktok, Twitter, Youtube, Linkedin, Pinterest]"

fun social_match :: "platform \<Rightarrow> string \<Rightarrow> bool" where
  "social_match Instagram h = (has_sub ''instagram.com'' h \<or> has_sub ''instagram'' h)"
| "social_match Facebook h = (has_sub ''facebook.com'' h \<or> has_sub ''facebook'' h)"
| "social_match Tiktok h = (has_sub ''tiktok.com'' h \<or> has_sub ''tiktok'' h)"
| "social_match Twitter h = (has_sub ''twitter.com'' h \<or> has_sub ''x.com'' h)"
| "social_match Youtube h = (has_sub ''youtube.com'' h \<or> has_sub ''youtube'' h)"
| "social_match Linkedin h = (has_sub ''linkedin.com'' h \<or> has_sub ''linkedin'' h)"
| "social_match Pinterest h = (has_sub ''pinterest.com'' h \<or> has_sub ''pinterest'' h)"

text \<open>
  \<open>_extract_social_username\<close>. Twitter and YouTube return the second group, the others the
  first: for LinkedIn the first group is \<open>company\<close> or \<open>in\<close>.
\<close>

fun extract_social_username :: "platform \<Rightarrow> string \<Rightarrow> string option" where
  "extract_social_username Instagram u =
     (case search_run [''instagram.com/''] (\<lambda>c. is_word c \<or> c = CHR ''.'' \<or> c = CHR ''_'') u of
        None \<Rightarrow> None | Some (lit, g) \<Rightarrow> Some (CHR ''@'' # g))"
| "extract_social_username Facebook u =
     (case search_run [''facebook.com/''] (\<lambda>c. is_word c \<or> c = CHR ''.'') u of
        None \<Rightarrow> None | Some (lit, g) \<Rightarrow> Some (CHR ''@'' # g))"
| "extract_social_username Tiktok u =
     (case search_run [''tiktok.com/@'', ''tiktok.com/''] (\<lambda>c. is_word c \<or> c = CHR ''.'') u of
        None \<Rightarrow> None | Some (lit, g) \<Rightarrow> Some (CHR ''@'' # g))"
| "extract_social_username Twitter u =
     (case search_run [''twitter.com/'', ''x.com/''] is_word u of
        None \<Rightarrow> None | Some (lit, g) \<Rightarrow> Some (CHR ''@'' # g))"
| "extract_social_username Youtube u =
     (case search_run [''youtube.com/user/'', ''youtube.com/channel/''] is_word u of
        None \<Rightarrow> None | Some (lit, g) \<Rightarrow> Some g)"
| "extract_social_username Linkedin u =
     (case search_run [''linkedin.com/company/'', ''linkedin.com/in/'']
             (\<lambda>c. is_word c \<or> c = CHR ''-'') u of
        None \<Rightarrow> None
      | Some (lit, g) \<Rightarrow>
          Some (CHR ''@'' # (if lit = ''linkedin.com/company/'' then ''company'' else ''in'')))"
| "extract_social_username Pinterest u =
     (case search_run [''pinterest.com/''] is_word u of
        None \<Rightarrow> None | Some (lit, g) \<Rightarrow> Some (CHR ''@'' # g))"

text \<open>\<open>username or href\<close>.\<close>

definition username_or_href :: "platform \<Rightarrow> string \<Rightarrow> string" where
  "username_or_href p href =
     (case extract_social_username p href of
        None \<Rightarrow> href
      | Some u \<Rightarrow> if u = [] then href else u)"

fun set_social :: "platform \<Rightarrow> string \<Rightarrow> Socials \<Rightarrow> Socials" where
  "set_social Instagram v so = so\<lparr>instagram := Some v\<rparr>"
| "set_social Facebook v so = so\<lparr>facebook := Some v\<rparr>"
| "set_social Tiktok v so = so\<lparr>tiktok := Some v\<rparr>"
| "set_social Twitter v so = so\<lparr>twitter := Some v\<rparr>"
| "set_social Youtube v so = so\<lparr>youtube := Some v\<rparr>"
| "set_social Linkedin v so = so\<lparr>linkedin := Some v\<rparr>"
| "set_social Pinterest v so = so\<lparr>pinterest := Some v\<rparr>"

fun get_social :: "platform \<Rightarrow> Socials \<Rightarrow> string option" where
  "get_social Instagram so = instagram so"
| "get_social Facebook so = facebook so"
| "get_social Tiktok so = tiktok so"
| "get_social Twitter so = twitter so"
| "get_social Youtube so = youtube so"
| "get_social Linkedin so = linkedin so"
| "get_social Pinterest so = pinterest so"

text \<open>\<open>link.get('href', '').lower()\<close> and \<open>link.get_text().lower()\<close>.\<close>

definition lower_href :: "node \<Rightarrow> string" where
  "lower_href link = py_lower (attr_or_empty ''href'' link)"

definition lower_text :: "node \<Rightarrow> string" where
  "lower_text link = py_lower (get_text link)"

text \<open>The inner loop over the patterns for one anchor, and the loop over the anchors.\<close>

fun social_patterns_loop :: "platform list \<Rightarrow> string \<Rightarrow> Socials \<Rightarrow> Socials" where
  "social_patterns_loop [] href so = so"
| "social_patterns_loop (p # ps) href so =
     social_patterns_loop ps href
       (if social_match p href then set_social p (username_or_href p href) so else so)"

fun socials_loop :: "node list \<Rightarrow> Socials \<Rightarrow> Socials" where
  "socials_loop [] so = so"
| "socials_loop (link # rest) so =
     socials_loop rest (social_patterns_loop social_patterns (lower_href link) so)"

text \<open>\<open>find_all('a', href=True)\<close>.\<close>

definition anchors_with_href :: "node \<Rightarrow> node list" where
  "anchors_with_href d = find_all [''a''] (\<lambda>x. attr ''href'' x \<noteq> None) d"

definition fetch_social_handles :: "env \<Rightarrow> scraper \<Rightarrow> (exc + Socials) \<times> scraper" where
  "fetch_social_handles E s =
     (case ensure_soup E s of
        (Inl e, s1) \<Rightarrow> (Inl e, s1)
      | (Inr d, s1) \<Rightarrow> (Inr (socials_loop (anchors_with_href d) Socials_default), s1))"

subsection \<open>Contact\<close>

text \<open>
  The e-mail pattern \<open>[\w\.-]+@[\w\.-]+\.[a-zA-Z]{2,}\<close> at the start of a string. The first
  run is the longest one and an \<open>@\<close> follows it. The second run gives back characters until
  what follows is a dot and at least two letters; \<open>email_domain_len\<close> is the length of that
  part, for the longest run after the \<open>@\<close>.
\<close>

definition is_email_char :: "char \<Rightarrow> bool" where
  "is_email_char c = (is_word c \<or> c = CHR ''.'' \<or> c = CHR ''-'')"

definition email_domain_len :: "string \<Rightarrow> nat option" where
  "email_domain_len r =
     (case filter (\<lambda>k. r ! k = CHR ''.'' \<and> 2 \<le> length (takeWhile is_letter (drop (Suc k) r)))
             (rev [1..<length r]) of
        [] \<Rightarrow> None
      | k # ks \<Rightarrow> Some (Suc k + length (takeWhile is_letter (drop (Suc k) r))))"

definition email_here :: "string \<Rightarrow> string option" where
  "email_here s =
     (let local = takeWhile is_email_char s in
      if local = [] then None
      else (case drop (length local) s of
              [] \<Rightarrow> None
            | c # t \<Rightarrow>
                if c = CHR ''@'' then
                  (case email_domain_len (takeWhile is_email_char t) of
                     None \<Rightarrow> None
                   | Some n \<Rightarrow> Some (local @ CHR ''@'' # take n t))
                else None))"

text \<open>The phone pattern \<open>\+?[\d\s\(\)\-]{10,20}\<close> at the start of a string.\<close>

definition is_phone_char :: "char \<Rightarrow> bool" where
  "is_phone_char c = (is_digit c \<or> is_space c \<or> c \<in> set ''()-'')"

definition phone_here :: "string \<Rightarrow> string option" where
  "phone_here s =
     (case s of
        [] \<Rightarrow> None
      | c # cs \<Rightarrow>
          if c = CHR ''+'' then
            (let run = takeWhile is_phone_char cs
             in if 10 \<le> length run then Some (c # take 20 run) else None)
          else
            (let run = takeWhile is_phone_char (c # cs)
             in if 10 \<le> length run then Some (take 20 run) else None))"

text \<open>\<open>re.sub(r'[\s\(\)\-]+', '', phone)\<close>.\<close>

definition clean_phone :: "string \<Rightarrow> string" where
  "clean_phone phone = filter (\<lambda>c. \<not> (is_space c \<or> c \<in> set ''()-'')) phone"

text \<open>The phones found in the text (the loop over \<open>found_phones\<close>).\<close>

definition phones_in_text :: "string \<Rightarrow> string set" where
  "phones_in_text txt =
     set (map py_strip (filter (\<lambda>phone. 10 \<le> length (clean_phone phone)) (re_findall phone_here txt)))"

definition phones_in_links :: "node \<Rightarrow> string set" where
  "phones_in_links d =
     set (map (\<lambda>link. py_strip (py_remove ''tel:'' (attr_or_empty ''href'' link)))
            (find_all [''a''] (attr_has ''href'' [''tel:'']) d))"

definition emails_in_links :: "node \<Rightarrow> string set" where
  "emails_in_links d =
     set (filter (\<lambda>email. email_here email \<noteq> None)
            (map (\<lambda>link. py_strip
                     (case py_split ''?'' (py_remove ''mailto:'' (attr_or_empty ''href'' link)) of
                        [] \<Rightarrow> [] | e # es \<Rightarrow> e))
               (find_all [''a''] (attr_has ''href'' [''mailto:'']) d)))"

definition contact_of :: "node \<Rightarrow> Contact" where
  "contact_of contact_soup =
     \<lparr>emails = set (re_findall email_here (get_text contact_soup)) \<union> emails_in_links contact_soup,
      phones = phones_in_text (get_text contact_soup) \<union> phones_in_links contact_soup\<rparr>"

text \<open>The body of the \<open>try\<close> for one contact path: \<open>Some\<close> page is the \<open>break\<close>.\<close>

definition try_contact_path :: "env \<Rightarrow> string \<Rightarrow> scraper \<Rightarrow> node option \<times> scraper" where
  "try_contact_path E path s =
     (case urljoin E (base_url s) path of
        None \<Rightarrow> (None, s)
      | Some u \<Rightarrow>
          (case fetch_url E u s of
             (Inl e, s1) \<Rightarrow> (None, s1)
           | (Inr (content, status), s1) \<Rightarrow>
               if status = 200 then (Some (html_parser E content), s1) else (None, s1)))"

fun contact_paths_loop :: "env \<Rightarrow> string list \<Rightarrow> scraper \<Rightarrow> node option \<times> scraper" where
  "contact_paths_loop E [] s = (None, s)"
| "contact_paths_loop E (path # rest) s =
     (case try_contact_path E path s of
        (Some d, s') \<Rightarrow> (Some d, s')
      | (None, s') \<Rightarrow> contact_paths_loop E rest s')"

definition contact_paths :: "string list" where
  "contact_paths = [''/contact'', ''/pages/contact'', ''/pages/contact-us'']"

definition fetch_contact_info :: "env \<Rightarrow> scraper \<Rightarrow> (exc + Contact) \<times> scraper" where
  "fetch_contact_info E s =
     (case ensure_soup E s of
        (Inl e, s1) \<Rightarrow> (Inl e, s1)
      | (Inr d, s1) \<Rightarrow>
          (case contact_paths_loop E contact_paths s1 of
             (None, s2) \<Rightarrow> (Inr (contact_of d), s2)
           | (Some contact_soup, s2) \<Rightarrow> (Inr (contact_of contact_soup), s2)))"

subsection \<open>Important links\<close>

datatype link_type = Order_tracking | Contact_us | Blogs | Shipping | Careers

definition link_patterns :: "link_type list" where
  "link_patterns = [Order_tracking, Contact_us, Blogs, Shipping, Careers]"

fun link_match :: "link_type \<Rightarrow> string \<Rightarrow> bool" where
  "link_match Order_tracking t =
     (has_gaps [''order'', ''tracking''] t \<or> has_gaps [''track'', ''order''] t \<or>
      has_gaps [''track'', ''package''] t)"
| "link_match Contact_us t = (has_sub ''contact'' t \<or> has_gaps [''contact'', ''us''] t)"
| "link_match Blogs t = (has_sub ''blog'' t \<or> has_sub ''news'' t \<or> has_sub ''articles'' t)"
| "link_match Shipping t = (has_sub ''shipping'' t \<or> has_sub ''delivery'' t)"
| "link_match Careers t =
     (has_sub ''careers'' t \<or> has_sub ''jobs'' t \<or> has_gaps [''join'', ''us''] t \<or>
      has_gaps [''work'', ''with'', ''us''] t)"

fun set_link :: "link_type \<Rightarrow> string \<Rightarrow> Links \<Rightarrow> Links" where
  "set_link Order_tracking v l = l\<lparr>order_tracking := Some v\<rparr>"
| "set_link Contact_us v l = l\<lparr>contact_us := Some v\<rparr>"
| "set_link Blogs v l = l\<lparr>blogs := Some v\<rparr>"
| "set_link Shipping v l = l\<lparr>shipping := Some v\<rparr>"
| "set_link Careers v l = l\<lparr>careers := Some v\<rparr>"

fun get_link :: "link_type \<Rightarrow> Links \<Rightarrow> string option" where
  "get_link Order_tracking l = order_tracking l"
| "get_link Contact_us l = contact_us l"
| "get_link Blogs l = blogs l"
| "get_link Shipping l = shipping l"
| "get_link Careers l = careers l"

text \<open>The inner loop for one anchor; \<open>None\<close> is the ValueError of \<open>urljoin\<close>, which nothing
  catches.\<close>

fun link_patterns_loop ::
  "env \<Rightarrow> string \<Rightarrow> link_type list \<Rightarrow> string \<Rightarrow> string \<Rightarrow> Links \<Rightarrow> Links option" where
  "link_patterns_loop E base [] href txt l = Some l"
| "link_patterns_loop E base (t # ts) href txt l =
     (if link_match t href \<or> link_match t txt then
        (case urljoin E base href of
           None \<Rightarrow> None
         | Some full_url \<Rightarrow> link_patterns_loop E base ts href txt (set_link t full_url l))
      else link_patterns_loop E base ts href txt l)"

fun links_loop :: "env \<Rightarrow> string \<Rightarrow> node list \<Rightarrow> Links \<Rightarrow> Links option" where
  "links_loop E base [] l = Some l"
| "links_loop E base (link # rest) l =
     (case link_patterns_loop E base link_patterns (lower_href link) (lower_text link) l of
        None \<Rightarrow> None
      | Some l' \<Rightarrow> links_loop E base rest l')"

definition fetch_important_links :: "env \<Rightarrow> scraper \<Rightarrow> (exc + Links) \<times> scraper" where
  "fetch_important_links E s =
     (case ensure_soup E s of
        (Inl e, s1) \<Rightarrow> (Inl e, s1)
      | (Inr d, s1) \<Rightarrow>
          (case links_loop E (base_url s1) (anchors_with_href d) Links_default of
             None \<Rightarrow> (Inl OtherException, s1)
           | Some l \<Rightarrow> (Inr l, s1)))"

subsection \<open>The run\<close>

text \<open>The eight extractors in sequence and the document they fill, for the brand \<open>b\<close>.\<close>

definition extract_all :: "env \<Rightarrow> string \<Rightarrow> scraper \<Rightarrow> (exc + BrandContext) \<times> scraper" where
  "extract_all E b s1 =
     (case fetch_products E s1 of (ps, s2) \<Rightarrow>
      case fetch_hero_products E ps s2 of
        (Inl e, s3) \<Rightarrow> (Inl e, s3)
      | (Inr hero, s3) \<Rightarrow>
     (case fetch_policies E s3 of (pol, s4) \<Rightarrow>
      case fetch_faqs E s4 of (fq, s5) \<Rightarrow>
      case fetch_social_handles E s5 of
        (Inl e, s6) \<Rightarrow> (Inl e, s6)
      | (Inr so, s6) \<Rightarrow>
     (case fetch_contact_info E s6 of
        (Inl e, s7) \<Rightarrow> (Inl e, s7)
      | (Inr co, s7) \<Rightarrow>
     (case fetch_about E s7 of (ab, s8) \<Rightarrow>
      case fetch_important_links E s8 of
        (Inl e, s9) \<Rightarrow> (Inl e, s9)
      | (Inr li, s9) \<Rightarrow>
          (Inr \<lparr>brand = b, products = ps, hero_products = hero, policies = pol, faqs = fq,
                socials = so, contact = co, about = ab, links = li\<rparr>, s9)))))"

text \<open>The body of the \<open>try\<close> of \<open>get_brand_context\<close>: the check, then the extractors.\<close>

definition brand_context_body :: "env \<Rightarrow> scraper \<Rightarrow> (exc + BrandContext) \<times> scraper" where
  "brand_context_body E s =
     (case check_is_shopify E s of
        (Inl e, s1) \<Rightarrow> (Inl e, s1)
      | (Inr ok, s1) \<Rightarrow>
          if \<not> ok then (Inl InvalidShopifyStoreError, s1)
          else extract_all E (netloc E (base_url s1)) s1)"

text \<open>\<open>try: ... finally: await self._close_session()\<close>.\<close>

definition get_brand_context :: "env \<Rightarrow> scraper \<Rightarrow> (exc + BrandContext) \<times> scraper" where
  "get_brand_context E s = (case brand_context_body E s of (r, s') \<Rightarrow> (r, close_session s'))"

section \<open>Proof aids\<close>

text \<open>What every step of a run keeps: the base URL, the count of closed sessions, an open
  session and its count, the requests already made, and a homepage already parsed.\<close>

definition steps :: "scraper \<Rightarrow> scraper \<Rightarrow> bool" where
  "steps s s' =
     (base_url s' = base_url s \<and> closed s' = closed s \<and>
      (session s \<longrightarrow> session s' \<and> opened s' = opened s) \<and>
      (\<exists>us. fetched s' = fetched s @ us) \<and>
      (soup s \<noteq> None \<longrightarrow> soup s' = soup s))"

text \<open>The condition of the inner loop of \<open>_fetch_important_links\<close> for one anchor and one
  category: the pattern is found in the href or in the text.\<close>

definition link_hit :: "link_type \<Rightarrow> node \<Rightarrow> bool" where
  "link_hit t a = (link_match t (lower_href a) \<or> link_match t (lower_text a))"

text \<open>What the specification says of one FAQ page: the accordion pairs when there are any,
  else the pairs of the flat heuristic.\<close>

definition page_faqs_spec :: "node \<Rightarrow> FAQ list" where
  "page_faqs_spec d = (if accordion_pairs d = [] then flat_pairs d else accordion_pairs d)"


text \<open>The URLs requested for a list of paths: those that resolve.\<close>

definition requested :: "env \<Rightarrow> string \<Rightarrow> string list \<Rightarrow> string list" where
  "requested E base paths = List.map_filter (urljoin E base) paths"


text \<open>The scraper after the requests \<open>us\<close>.\<close>

definition after_requests :: "scraper \<Rightarrow> string list \<Rightarrow> scraper" where
  "after_requests s us = (if us = [] then s else (init_session s)\<lparr>fetched := fetched s @ us\<rparr>)"

text \<open>
  The records of the products collection of a feed, requested when the requests \<open>h\<close> have been
  made: \<open>Some\<close> when the answer has status 200 and is a JSON document in which \<open>products\<close> is
  found and can be iterated.
\<close>

definition feed_items :: "env \<Rightarrow> string list \<Rightarrow> string \<Rightarrow> json list option" where
  "feed_items E h u =
     (case http_get E h u of
        Resp content status \<Rightarrow>
          if status = 200 then
            (case json_loads E content of
               None \<Rightarrow> None
             | Some data \<Rightarrow>
                 (case py_in ''products'' data of
                    None \<Rightarrow> None
                  | Some found \<Rightarrow>
                      if found then
                        (case py_getitem data ''products'' of None \<Rightarrow> None | Some v \<Rightarrow> py_iter v)
                      else None))
          else None
      | ClientError \<Rightarrow> None
      | OtherError \<Rightarrow> None)"

text \<open>Every record of the list converts; and the products of the records before the first
  one whose conversion raises.\<close>

definition all_convert :: "env \<Rightarrow> string \<Rightarrow> json list \<Rightarrow> bool" where
  "all_convert E b items = list_all (\<lambda>x. make_product E b x \<noteq> None) items"

definition converted :: "env \<Rightarrow> string \<Rightarrow> json list \<Rightarrow> Product list" where
  "converted E b items =
     List.map_filter (make_product E b) (takeWhile (\<lambda>x. make_product E b x \<noteq> None) items)"

text \<open>
  A feed is valid when it has a products collection (see \<open>feed_items\<close>) whose records all
  convert; and the products a feed adds to the list: those of its records before the first
  one that does not convert, none when it has no products collection.
\<close>

definition feed_valid :: "env \<Rightarrow> string \<Rightarrow> string list \<Rightarrow> string \<Rightarrow> bool" where
  "feed_valid E b h u =
     (case feed_items E h u of None \<Rightarrow> False | Some items \<Rightarrow> all_convert E b items)"

definition feed_products :: "env \<Rightarrow> string \<Rightarrow> string list \<Rightarrow> string \<Rightarrow> Product list" where
  "feed_products E b h u =
     (case feed_items E h u of None \<Rightarrow> [] | Some items \<Rightarrow> converted E b items)"

text \<open>The candidate paths and endpoints of the extractors, all of them.\<close>

definition candidate_paths :: "string list" where
  "candidate_paths =
     product_endpoints @ concat (map snd policy_paths) @ faq_paths @ contact_paths @ about_paths"

text \<open>A candidate path fails: whenever its URL is requested after the homepage, the request
  fails or the answer has a status other than 200.\<close>

definition path_fails :: "env \<Rightarrow> string \<Rightarrow> string \<Rightarrow> bool" where
  "path_fails E base path =
     (\<forall>h u content. h \<noteq> [] \<longrightarrow> urljoin E base path = Some u \<longrightarrow>
        http_get E h u \<noteq> Resp content 200)"

text \<open>Every candidate path and endpoint of the site at \<open>base\<close> fails.\<close>

definition only_homepage :: "env \<Rightarrow> string \<Rightarrow> bool" where
  "only_homepage E base = list_all (path_fails E base) candidate_paths"

text \<open>
  The page one candidate path of the FAQs gives, tried when the requests \<open>h\<close> have been made:
  the parsed document when its URL resolves and the answer has status 200.
\<close>

definition faq_page :: "env \<Rightarrow> string \<Rightarrow> string list \<Rightarrow> string \<Rightarrow> node option" where
  "faq_page E base h path =
     (case urljoin E base path of
        None \<Rightarrow> None
      | Some u \<Rightarrow>
          (case http_get E h u of
             Resp content status \<Rightarrow> if status = 200 then Some (html_parser E content) else None
           | ClientError \<Rightarrow> None
           | OtherError \<Rightarrow> None))"

text \<open>A path gives no pair: it gives no page, or a page on which neither method finds one.
  And every path of the list gives no pair when its turn comes.\<close>

definition faq_miss :: "env \<Rightarrow> string \<Rightarrow> string list \<Rightarrow> string \<Rightarrow> bool" where
  "faq_miss E base h path =
     (case faq_page E base h path of
        None \<Rightarrow> True
      | Some d \<Rightarrow> accordion_pairs d = [] \<and> flat_pairs d = [])"

fun faq_all_miss :: "env \<Rightarrow> string \<Rightarrow> string list \<Rightarrow> string list \<Rightarrow> bool" where
  "faq_all_miss E base h [] = True"
| "faq_all_miss E base h (path # rest) =
     (faq_miss E base h path \<and> faq_all_miss E base (h @ requested E base [path]) rest)"

section \<open>Example sites\<close>

text \<open>
  The examples run the scraper against small sites. Their libraries are fixed here, for the
  inputs the examples hold:
  \<^item> \<open>urljoin\<close> of a base without a path and a reference that is absolute or starts at the root;
  \<^item> \<open>netloc\<close> of an \<open>https\<close> URL;
  \<^item> \<open>str\<close> of \<open>None\<close>, a bool, an int or a str;
  \<^item> the validation of a \<open>Product\<close> whose arguments are strs, \<open>None\<close>, lists of strs and lists
    of dicts; pydantic converts or refuses other values, which do not occur here;
  \<^item> the parser and \<open>json.loads\<close> as tables from the bodies the site serves.
\<close>

definition example_urljoin :: "string \<Rightarrow> string \<Rightarrow> string option" where
  "example_urljoin base rel = (if starts_with ''http'' rel then Some rel else Some (base @ rel))"

definition example_netloc :: "string \<Rightarrow> string" where
  "example_netloc u = takeWhile (\<lambda>c. c \<noteq> CHR ''/'') (drop (length ''https://'') u)"

function decimal :: "nat \<Rightarrow> string" where
  "decimal n = (if n < 10 then [''0123456789'' ! n] else decimal (n div 10) @ [''0123456789'' ! (n mod 10)])"
  by pat_completeness auto
termination
  by (relation "measure (\<lambda>n. n)") auto

fun example_str :: "json \<Rightarrow> string" where
  "example_str JNull = ''None''"
| "example_str (JBool b) = (if b then ''True'' else ''False'')"
| "example_str (JInt i) = (if i < 0 then CHR ''-'' # decimal (nat (- i)) else decimal (nat i))"
| "example_str (JStr s) = s"
| "example_str v = []"

fun optional_str :: "json \<Rightarrow> string option option" where
  "optional_str JNull = Some None"
| "optional_str (JStr s) = Some (Some s)"
| "optional_str v = None"

fun list_of_str :: "json list \<Rightarrow> string list option" where
  "list_of_str [] = Some []"
| "list_of_str (JStr s # vs) = map_option (\<lambda>ss. s # ss) (list_of_str vs)"
| "list_of_str (v # vs) = None"

fun list_of_dict :: "json list \<Rightarrow> (string \<times> json) list list option" where
  "list_of_dict [] = Some []"
| "list_of_dict (JObj d # vs) = map_option (\<lambda>ds. d # ds) (list_of_dict vs)"
| "list_of_dict (v # vs) = None"

definition example_Product_init :: "product_args \<Rightarrow> Product option" where
  "example_Product_init a =
     (case (arg_title a, optional_str (arg_handle a), optional_str (arg_description a),
            optional_str (arg_price a), optional_str (arg_image a), arg_tags a, arg_variants a) of
        (JStr t, Some h, Some d, Some pr, Some im, JArr tg, JArr vs) \<Rightarrow>
          (case (list_of_str tg, list_of_dict vs) of
             (Some tgs, Some vss) \<Rightarrow>
               Some \<lparr>id_p = Some (arg_id a), title = t, handle = h, description = d, price = pr,
                      image_p = im, url = Some (arg_url a), tags = tgs, variants = Some vss\<rparr>
           | other \<Rightarrow> None)
      | other \<Rightarrow> None)"

definition example_parser :: "(string \<times> node) list \<Rightarrow> string \<Rightarrow> node" where
  "example_parser pages content =
     (case map_of pages content of None \<Rightarrow> Tag ''[document]'' [] [] | Some d \<Rightarrow> d)"

text \<open>A site that serves the listed URLs with status 200 and answers 404 for every other.\<close>

definition example_site ::
  "(string \<times> string) list \<Rightarrow> (string \<times> node) list \<Rightarrow> (string \<times> json) list \<Rightarrow> env" where
  "example_site served pages docs =
     \<lparr>http_get = (\<lambda>h u. case map_of served u of None \<Rightarrow> Resp [] 404 | Some c \<Rightarrow> Resp c 200),
      html_parser = example_parser pages,
      json_loads = map_of docs,
      urljoin = example_urljoin,
      netloc = example_netloc,
      py_str = example_str,
      Product_init = example_Product_init\<rparr>"

subsection \<open>A site that is no Shopify store\<close>

definition plain_page :: string where
  "plain_page = ''<p>hello</p>''"

definition plain_dom :: node where
  "plain_dom = Tag ''[document]'' [] [Tag ''p'' [] [Text ''hello'']]"

definition plain_site :: env where
  "plain_site = example_site [(''https://plain.example'', plain_page)] [(plain_page, plain_dom)] []"

subsection \<open>A site that cannot be reached\<close>

definition down_site :: env where
  "down_site = (example_site [] [] [])\<lparr>http_get := (\<lambda>h u. ClientError)\<rparr>"

subsection \<open>A store of which only the homepage answers\<close>

text \<open>A store whose homepage has a Shopify script, an Instagram link and an e-mail address,
  and which serves no other URL.\<close>

definition shop_home :: string where
  "shop_home = ''<script src=//cdn.shopify.com/s/theme.js></script><a href=https://instagram.com/shop>Instagram</a><p>Mail hello@shop.example</p>''"

definition shop_home_dom :: node where
  "shop_home_dom = Tag ''[document]'' []
     [Tag ''script'' [(''src'', ''//cdn.shopify.com/s/theme.js'')] [],
      Tag ''a'' [(''href'', ''https://instagram.com/shop'')] [Text ''Instagram''],
      Tag ''p'' [] [Text ''Mail hello@shop.example'']]"

definition shop_home_site :: env where
  "shop_home_site =
     example_site [(''https://shop.example'', shop_home)] [(shop_home, shop_home_dom)] []"

subsection \<open>A catalog and a homepage that features it\<close>

text \<open>Three records of a product feed, a record whose \<open>tags\<close> is \<open>null\<close> (it has no
  \<open>split\<close>, so its conversion raises), and the products the three convert to on
  \<open>https://shop.example\<close>.\<close>

definition tee_json :: json where
  "tee_json = JObj
     [(''id'', JInt 1), (''title'', JStr ''Tee''), (''handle'', JStr ''tee''),
      (''body_html'', JStr ''A tee''),
      (''variants'', JArr [JObj [(''price'', JStr ''9.00'')]]),
      (''images'', JArr [JObj [(''src'', JStr ''https://cdn.shopify.com/tee.png'')]]),
      (''tags'', JStr ''cotton, summer'')]"

definition mug_json :: json where
  "mug_json = JObj
     [(''id'', JInt 2), (''title'', JStr ''Mug''), (''handle'', JStr ''mug''), (''tags'', JArr [])]"

definition cap_json :: json where
  "cap_json = JObj [(''id'', JInt 3), (''title'', JStr ''Cap''), (''handle'', JStr ''cap'')]"

definition hat_json :: json where
  "hat_json = JObj
     [(''id'', JInt 4), (''title'', JStr ''Hat''), (''handle'', JStr ''hat''), (''tags'', JNull)]"

definition tee :: Product where
  "tee = \<lparr>id_p = Some ''1'', title = ''Tee'', handle = Some ''tee'', description = Some ''A tee'',
          price = Some ''9.00'', image_p = Some ''https://cdn.shopify.com/tee.png'',
          url = Some ''https://shop.example/products/tee'', tags = [''cotton'', ''summer''],
          variants = Some [[(''price'', JStr ''9.00'')]]\<rparr>"

definition mug :: Product where
  "mug = \<lparr>id_p = Some ''2'', title = ''Mug'', handle = Some ''mug'', description = Some [],
          price = None, image_p = None, url = Some ''https://shop.example/products/mug'',
          tags = [], variants = Some []\<rparr>"

definition cap :: Product where
  "cap = \<lparr>id_p = Some ''3'', title = ''Cap'', handle = Some ''cap'', description = Some [],
          price = None, image_p = None, url = Some ''https://shop.example/products/cap'',
          tags = [[]], variants = Some []\<rparr>"

text \<open>A homepage that links to the tee twice, to a product the catalog does not have, and to
  the mug.\<close>

definition hero_home :: node where
  "hero_home = Tag ''[document]'' []
     [Tag ''a'' [(''href'', ''/products/tee'')] [Text ''Tee''],
      Tag ''a'' [(''href'', ''/products/ghost'')] [Text ''Ghost''],
      Tag ''div'' [] [Tag ''a'' [(''href'', ''/products/tee?variant=1'')] [Text ''Tee again'']],
      Tag ''a'' [(''href'', ''/collections/all/products/mug'')] [Text ''Mug'']]"

subsection \<open>Product feeds\<close>

text \<open>Feeds: an empty one, one with three products, one whose second record does not
  convert, and one with the cap alone.\<close>

definition feed_empty :: string where
  \<open>feed_empty = ''{"products": []}''\<close>

definition feed_three :: string where
  \<open>feed_three = ''{"products": [{"id": 1, "title": "Tee", "handle": "tee", "body_html": "A tee", "variants": [{"price": "9.00"}], "images": [{"src": "https://cdn.shopify.com/tee.png"}], "tags": "cotton, summer"}, {"id": 2, "title": "Mug", "handle": "mug", "tags": []}, {"id": 3, "title": "Cap", "handle": "cap"}]}''\<close>

definition feed_partial :: string where
  \<open>feed_partial = ''{"products": [{"id": 2, "title": "Mug", "handle": "mug", "tags": []}, {"id": 4, "title": "Hat", "handle": "hat", "tags": null}, {"id": 1, "title": "Tee", "handle": "tee", "body_html": "A tee", "variants": [{"price": "9.00"}], "images": [{"src": "https://cdn.shopify.com/tee.png"}], "tags": "cotton, summer"}]}''\<close>

definition feed_cap :: string where
  \<open>feed_cap = ''{"products": [{"id": 3, "title": "Cap", "handle": "cap"}]}''\<close>

definition example_feeds :: "(string \<times> json) list" where
  "example_feeds =
     [(feed_empty, JObj [(''products'', JArr [])]),
      (feed_three, JObj [(''products'', JArr [tee_json, mug_json, cap_json])]),
      (feed_partial, JObj [(''products'', JArr [mug_json, hat_json, tee_json])]),
      (feed_cap, JObj [(''products'', JArr [cap_json])])]"

definition empty_first_site :: env where
  "empty_first_site = example_site
     [(''https://shop.example/products.json?limit=250'', feed_empty),
      (''https://shop.example/collections/all/products.json?limit=250'', feed_three)]
     [] example_feeds"

definition partial_site :: env where
  "partial_site = example_site
     [(''https://shop.example/products.json?limit=250'', feed_partial),
      (''https://shop.example/collections/all/products.json?limit=250'', feed_cap)]
     [] example_feeds"

text \<open>A site whose first feed endpoint answers 404 and whose second has three products.\<close>

definition second_only_site :: env where
  "second_only_site = example_site
     [(''https://shop.example/collections/all/products.json?limit=250'', feed_three)]
     [] example_feeds"

subsection \<open>A homepage with social and contact links\<close>

text \<open>A homepage with two Instagram links and two contact links.\<close>

definition ig_first :: node where
  "ig_first = Tag ''a'' [(''href'', ''https://instagram.com/first'')] [Text ''Instagram'']"

definition contact_link :: node where
  "contact_link = Tag ''a'' [(''href'', ''/pages/contact'')] [Text ''Write to us'']"

definition ig_second :: node where
  "ig_second = Tag ''a'' [(''href'', ''https://www.instagram.com/second/'')] [Text ''IG'']"

definition help_link :: node where
  "help_link = Tag ''a'' [(''href'', ''/pages/help'')] [Text ''Contact us'']"

definition social_home :: node where
  "social_home = Tag ''[document]'' []
     [ig_first, contact_link, Tag ''footer'' [] [ig_second, help_link]]"

definition social_scraper :: scraper where
  "social_scraper = (new_scraper ''https://shop.example'')\<lparr>soup := Some social_home\<rparr>"

subsection \<open>FAQ pages\<close>

text \<open>A FAQ page with one accordion item and, after it, one flat question; and a page with
  the flat question alone.\<close>

definition faq_both_page :: string where
  "faq_both_page = ''<div class=faq-item><h3 class=question>Q1</h3><p class=answer> A1 </p></div><h4 class=faq-question>Q2</h4><p>A2</p>''"

definition faq_both_dom :: node where
  "faq_both_dom = Tag ''[document]'' []
     [Tag ''div'' [(''class'', ''faq-item'')]
        [Tag ''h3'' [(''class'', ''question'')] [Text ''Q1''],
         Tag ''p'' [(''class'', ''answer'')] [Text '' A1 '']],
      Tag ''h4'' [(''class'', ''faq-question'')] [Text ''Q2''],
      Tag ''p'' [] [Text ''A2'']]"

definition faq_flat_page :: string where
  "faq_flat_page = ''<h4 class=faq-question>Q2</h4><p>A2</p>''"

definition faq_flat_dom :: node where
  "faq_flat_dom = Tag ''[document]'' []
     [Tag ''h4'' [(''class'', ''faq-question'')] [Text ''Q2''],
      Tag ''p'' [] [Text ''A2'']]"

definition faq_site :: env where
  "faq_site = example_site [(''https://shop.example/pages/faq'', faq_both_page)]
                [(faq_both_page, faq_both_dom), (faq_flat_page, faq_flat_dom)] []"

definition faq_flat_site :: env where
  "faq_flat_site = example_site [(''https://shop.example/pages/faq'', faq_flat_page)]
                [(faq_both_page, faq_both_dom), (faq_flat_page, faq_flat_dom)] []"

subsection \<open>About pages\<close>






section \<open>What a run keeps\<close>

lemma steps_refl: "steps s s"
  by (simp add: steps_def)

lemma steps_trans: "steps a b \<Longrightarrow> steps b c \<Longrightarrow> steps a c"
  by (auto simp: steps_def)

lemma fetch_url_snd:
  "snd (fetch_url E u s) = (init_session s)\<lparr>fetched := fetched s @ [u]\<rparr>"
  by (simp add: fetch_url_def init_session_def Let_def split: response.splits)

lemma fetch_url_fst:
  "fst (fetch_url E u s) =
     (case http_get E (fetched s) u of
        Resp content status \<Rightarrow> Inr (content, status)
      | ClientError \<Rightarrow> Inl WebsiteNotFoundException
      | OtherError \<Rightarrow> Inl OtherException)"
  by (simp add: fetch_url_def init_session_def Let_def split: response.splits)

lemma init_session_keeps:
  "fetched (init_session s) = fetched s" "base_url (init_session s) = base_url s"
  "soup (init_session s) = soup s" "closed (init_session s) = closed s"
  "session (init_session s)"
  by (simp_all add: init_session_def)

lemma fetch_url_any:
  "fetch_url E u s = (r, s') \<Longrightarrow>
     fetched s' = fetched s @ [u] \<and> base_url s' = base_url s \<and> soup s' = soup s"
  by (auto simp: fetch_url_def init_session_keeps Let_def split: response.splits)

lemma fetch_url_Inr:
  "fetch_url E u s = (Inr (content, status), s') \<Longrightarrow> http_get E (fetched s) u = Resp content status"
  by (auto simp: fetch_url_def init_session_keeps Let_def split: response.splits)

lemma steps_fetch_url: "fetch_url E u s = (r, s') \<Longrightarrow> steps s s'"
  using fetch_url_snd [of E u s] by (auto simp: steps_def init_session_def)

lemma session_fetch_url: "fetch_url E u s = (r, s') \<Longrightarrow> session s'"
  using fetch_url_snd [of E u s] by (auto simp: init_session_def)

lemma steps_try_endpoint: "try_endpoint E ep acc s = (r, s') \<Longrightarrow> steps s s'"
  by (auto simp: try_endpoint_def steps_refl split: option.splits prod.splits sum.splits if_splits
      dest: steps_fetch_url)

lemma steps_products_loop: "products_loop E eps acc s = (r, s') \<Longrightarrow> steps s s'"
proof (induction eps arbitrary: acc s)
  case Nil
  then show ?case by (simp add: steps_refl)
next
  case (Cons ep eps)
  obtain stop acc1 s1 where t: "try_endpoint E ep acc s = ((stop, acc1), s1)"
    by (metis prod.exhaust)
  have a: "steps s s1" using t by (rule steps_try_endpoint)
  show ?case
  proof (cases stop)
    case True
    with Cons.prems t a show ?thesis by simp
  next
    case False
    with Cons.prems t have "products_loop E eps acc1 s1 = (r, s')" by simp
    then have "steps s1 s'" by (rule Cons.IH)
    with a show ?thesis by (rule steps_trans)
  qed
qed


lemma steps_ensure_soup: "ensure_soup E s = (r, s') \<Longrightarrow> steps s s'"
  by (auto simp: ensure_soup_def steps_refl steps_def Let_def
      split: option.splits prod.splits sum.splits dest!: steps_fetch_url)

lemma steps_fetch_products: "fetch_products E s = (r, s') \<Longrightarrow> steps s s'"
  unfolding fetch_products_def by (rule steps_products_loop)

lemma steps_fetch_hero_products: "fetch_hero_products E ps s = (r, s') \<Longrightarrow> steps s s'"
  by (auto simp: fetch_hero_products_def split: prod.splits sum.splits dest: steps_ensure_soup)

lemma steps_try_text_path: "try_text_path E p s = (r, s') \<Longrightarrow> steps s s'"
  by (auto simp: try_text_path_def steps_refl split: option.splits prod.splits sum.splits if_splits
      dest: steps_fetch_url)

lemma steps_text_paths_loop: "text_paths_loop E ps s = (r, s') \<Longrightarrow> steps s s'"
proof (induction ps arbitrary: s)
  case Nil
  then show ?case by (simp add: steps_refl)
next
  case (Cons p ps)
  obtain r1 s1 where t: "try_text_path E p s = (r1, s1)" by force
  have a: "steps s s1" using t by (rule steps_try_text_path)
  show ?case
  proof (cases r1)
    case None
    with Cons.prems t have "text_paths_loop E ps s1 = (r, s')" by simp
    then have "steps s1 s'" by (rule Cons.IH)
    with a show ?thesis by (rule steps_trans)
  next
    case (Some x)
    with Cons.prems t a show ?thesis by simp
  qed
qed

lemma steps_policies_loop: "policies_loop E pps pol s = (r, s') \<Longrightarrow> steps s s'"
proof (induction pps arbitrary: pol s)
  case Nil
  then show ?case by (simp add: steps_refl)
next
  case (Cons pp pps)
  obtain ptype paths where pp: "pp = (ptype, paths)" by force
  obtain r1 s1 where t: "text_paths_loop E paths s = (r1, s1)" by force
  have a: "steps s s1" using t by (rule steps_text_paths_loop)
  have "\<exists>pol1. policies_loop E pps pol1 s1 = (r, s')"
    using Cons.prems pp t by (cases r1) auto
  then obtain pol1 where "policies_loop E pps pol1 s1 = (r, s')" ..
  then have "steps s1 s'" by (rule Cons.IH)
  with a show ?case by (rule steps_trans)
qed

lemma steps_fetch_policies: "fetch_policies E s = (r, s') \<Longrightarrow> steps s s'"
  unfolding fetch_policies_def by (rule steps_policies_loop)

lemma steps_fetch_about: "fetch_about E s = (r, s') \<Longrightarrow> steps s s'"
  unfolding fetch_about_def by (rule steps_text_paths_loop)

lemma steps_try_faq_path: "try_faq_path E p f s = (r, s') \<Longrightarrow> steps s s'"
  by (auto simp: try_faq_path_def steps_refl Let_def
      split: option.splits prod.splits sum.splits if_splits dest: steps_fetch_url)

lemma steps_faqs_loop: "faqs_loop E ps f s = (r, s') \<Longrightarrow> steps s s'"
proof (induction ps arbitrary: f s)
  case Nil
  then show ?case by (simp add: steps_refl)
next
  case (Cons p ps)
  obtain stop f1 s1 where t: "try_faq_path E p f s = ((stop, f1), s1)"
    by (metis prod.exhaust)
  have a: "steps s s1" using t by (rule steps_try_faq_path)
  show ?case
  proof (cases stop)
    case True
    with Cons.prems t a show ?thesis by simp
  next
    case False
    with Cons.prems t have "faqs_loop E ps f1 s1 = (r, s')" by simp
    then have "steps s1 s'" by (rule Cons.IH)
    with a show ?thesis by (rule steps_trans)
  qed
qed

lemma steps_fetch_faqs: "fetch_faqs E s = (r, s') \<Longrightarrow> steps s s'"
  unfolding fetch_faqs_def by (rule steps_faqs_loop)

lemma steps_fetch_social_handles: "fetch_social_handles E s = (r, s') \<Longrightarrow> steps s s'"
  by (auto simp: fetch_social_handles_def split: prod.splits sum.splits dest: steps_ensure_soup)

lemma steps_try_contact_path: "try_contact_path E p s = (r, s') \<Longrightarrow> steps s s'"
  by (auto simp: try_contact_path_def steps_refl split: option.splits prod.splits sum.splits if_splits
      dest: steps_fetch_url)

lemma steps_contact_paths_loop: "contact_paths_loop E ps s = (r, s') \<Longrightarrow> steps s s'"
proof (induction ps arbitrary: s)
  case Nil
  then show ?case by (simp add: steps_refl)
next
  case (Cons p ps)
  obtain r1 s1 where t: "try_contact_path E p s = (r1, s1)" by force
  have a: "steps s s1" using t by (rule steps_try_contact_path)
  show ?case
  proof (cases r1)
    case None
    with Cons.prems t have "contact_paths_loop E ps s1 = (r, s')" by simp
    then have "steps s1 s'" by (rule Cons.IH)
    with a show ?thesis by (rule steps_trans)
  next
    case (Some x)
    with Cons.prems t a show ?thesis by simp
  qed
qed

lemma steps_fetch_contact_info: "fetch_contact_info E s = (r, s') \<Longrightarrow> steps s s'"
  by (auto simp: fetch_contact_info_def split: prod.splits sum.splits option.splits
      dest: steps_ensure_soup steps_contact_paths_loop intro: steps_trans)

lemma steps_fetch_important_links: "fetch_important_links E s = (r, s') \<Longrightarrow> steps s s'"
  by (auto simp: fetch_important_links_def split: prod.splits sum.splits option.splits
      dest: steps_ensure_soup)

lemma steps_extract_all: "extract_all E b s = (r, s') \<Longrightarrow> steps s s'"
proof -
  assume run: "extract_all E b s = (r, s')"
  obtain ps s2 where e2: "fetch_products E s = (ps, s2)" by force
  obtain r3 s3 where e3: "fetch_hero_products E ps s2 = (r3, s3)" by force
  obtain pol s4 where e4: "fetch_policies E s3 = (pol, s4)" by force
  obtain fq s5 where e5: "fetch_faqs E s4 = (fq, s5)" by force
  obtain r6 s6 where e6: "fetch_social_handles E s5 = (r6, s6)" by force
  obtain r7 s7 where e7: "fetch_contact_info E s6 = (r7, s7)" by force
  obtain ab s8 where e8: "fetch_about E s7 = (ab, s8)" by force
  obtain r9 s9 where e9: "fetch_important_links E s8 = (r9, s9)" by force
  have t3: "steps s s3"
    using steps_fetch_products [OF e2] steps_fetch_hero_products [OF e3] by (rule steps_trans)
  have t5: "steps s3 s5"
    using steps_fetch_policies [OF e4] steps_fetch_faqs [OF e5] by (rule steps_trans)
  have t6: "steps s s6"
    using steps_trans [OF t3 t5] steps_fetch_social_handles [OF e6] by (rule steps_trans)
  have t7: "steps s s7"
    using t6 steps_fetch_contact_info [OF e7] by (rule steps_trans)
  have t9: "steps s s9"
    using steps_trans [OF t7 steps_fetch_about [OF e8]] steps_fetch_important_links [OF e9]
    by (rule steps_trans)
  have "s' = s3 \<or> s' = s6 \<or> s' = s7 \<or> s' = s9"
    using run e2 e3 e4 e5 e6 e7 e8 e9
    by (auto simp: extract_all_def split: sum.splits)
  with t3 t6 t7 t9 show ?thesis by auto
qed

lemma check_is_shopify_state:
  "check_is_shopify E s = (r, s') \<Longrightarrow>
     session s' \<and> closed s' = closed s \<and> base_url s' = base_url s \<and>
     opened s' = (if session s then opened s else opened s + 1) \<and>
     (\<exists>extra. fetched s' = fetched s @ [base_url s] @ extra)"
  using fetch_url_snd [of E "base_url s" s]
  by (auto simp: check_is_shopify_def init_session_def Let_def
      split: prod.splits sum.splits if_splits)

lemma brand_context_body_state:
  assumes "brand_context_body E s = (r, s')"
  shows "session s' \<and> closed s' = closed s \<and>
         opened s' = (if session s then opened s else opened s + 1)"
proof -
  obtain r1 s1 where c: "check_is_shopify E s = (r1, s1)" by force
  note st = check_is_shopify_state [OF c]
  show ?thesis
  proof (cases "\<exists>b. r1 = Inr True \<and> extract_all E b s1 = (r, s')")
    case True
    then obtain b where "extract_all E b s1 = (r, s')" by blast
    then have "steps s1 s'" by (rule steps_extract_all)
    with st show ?thesis by (auto simp: steps_def)
  next
    case False
    with assms c have "s' = s1"
      by (auto simp: brand_context_body_def split: sum.splits if_splits)
    with st show ?thesis by simp
  qed
qed

lemma after_requests_Nil: "after_requests s [] = s"
  by (simp add: after_requests_def)

lemma after_requests_append:
  "after_requests (after_requests s us) vs = after_requests s (us @ vs)"
  by (simp add: after_requests_def init_session_def)

lemma after_requests_keeps:
  "base_url (after_requests s us) = base_url s" "fetched (after_requests s us) = fetched s @ us"
  by (simp_all add: after_requests_def init_session_keeps)

lemma requested_append: "requested E base (xs @ ys) = requested E base xs @ requested E base ys"
  by (induction xs) (simp_all add: requested_def split: option.splits)

section \<open>A run in which only the homepage answers\<close>

lemma steps_later: "steps s s' \<Longrightarrow> fetched s \<noteq> [] \<Longrightarrow> fetched s' \<noteq> []"
  by (auto simp: steps_def)

lemma steps_soup: "steps s s' \<Longrightarrow> soup s = Some d \<Longrightarrow> soup s' = Some d"
  by (auto simp: steps_def)

lemma steps_base: "steps s s' \<Longrightarrow> base_url s' = base_url s"
  by (auto simp: steps_def)

lemma fetch_url_no_200:
  assumes "path_fails E base p" and "urljoin E base p = Some u" and "fetched s \<noteq> []"
    and "fetch_url E u s = (Inr (content, status), s')"
  shows "status \<noteq> 200"
  using fetch_url_Inr [OF assms(4)] assms(1,2,3) by (auto simp: path_fails_def)

lemma try_endpoint_fails:
  assumes "path_fails E (base_url s) ep" and "fetched s \<noteq> []"
  shows "fst (try_endpoint E ep acc s) = (False, acc)"
  using assms
  by (auto simp: try_endpoint_def split: option.splits prod.splits sum.splits
      dest: fetch_url_no_200)

lemma products_loop_fails:
  "list_all (path_fails E (base_url s)) eps \<Longrightarrow> fetched s \<noteq> [] \<Longrightarrow>
     fst (products_loop E eps acc s) = acc"
proof (induction eps arbitrary: s)
  case Nil
  then show ?case by simp
next
  case (Cons ep eps)
  obtain r s1 where t: "try_endpoint E ep acc s = (r, s1)" by (metis surj_pair)
  from Cons.prems have "path_fails E (base_url s) ep" by simp
  with try_endpoint_fails [of E s ep acc] Cons.prems(2) t have r: "r = (False, acc)" by simp
  note st = steps_try_endpoint [OF t]
  have "fetched s1 \<noteq> []" using st Cons.prems(2) by (rule steps_later)
  moreover have "list_all (path_fails E (base_url s1)) eps"
    using Cons.prems(1) steps_base [OF st] by simp
  ultimately have "fst (products_loop E eps acc s1) = acc" by (intro Cons.IH)
  with t r show ?case by simp
qed

lemma try_text_path_fails:
  assumes "path_fails E (base_url s) p" and "fetched s \<noteq> []"
  shows "fst (try_text_path E p s) = None"
  using assms
  by (auto simp: try_text_path_def split: option.splits prod.splits sum.splits
      dest: fetch_url_no_200)

lemma text_paths_loop_fails:
  "list_all (path_fails E (base_url s)) ps \<Longrightarrow> fetched s \<noteq> [] \<Longrightarrow>
     fst (text_paths_loop E ps s) = None"
proof (induction ps arbitrary: s)
  case Nil
  then show ?case by simp
next
  case (Cons p ps)
  obtain r s1 where t: "try_text_path E p s = (r, s1)" by force
  from Cons.prems have "path_fails E (base_url s) p" by simp
  with try_text_path_fails [of E s p] Cons.prems(2) t have r: "r = None" by simp
  note st = steps_try_text_path [OF t]
  have "fetched s1 \<noteq> []" using st Cons.prems(2) by (rule steps_later)
  moreover have "list_all (path_fails E (base_url s1)) ps"
    using Cons.prems(1) steps_base [OF st] by simp
  ultimately have "fst (text_paths_loop E ps s1) = None" by (intro Cons.IH)
  with t r show ?case by simp
qed

lemma policies_loop_fails:
  "list_all (path_fails E (base_url s)) (concat (map snd pps)) \<Longrightarrow> fetched s \<noteq> [] \<Longrightarrow>
     fst (policies_loop E pps pol s) = pol"
proof (induction pps arbitrary: s)
  case Nil
  then show ?case by simp
next
  case (Cons pp pps)
  obtain ptype paths where pp: "pp = (ptype, paths)" by force
  obtain r s1 where t: "text_paths_loop E paths s = (r, s1)" by force
  from Cons.prems pp have "list_all (path_fails E (base_url s)) paths" by simp
  with text_paths_loop_fails [of E s paths] Cons.prems(2) t have r: "r = None" by simp
  note st = steps_text_paths_loop [OF t]
  have "fetched s1 \<noteq> []" using st Cons.prems(2) by (rule steps_later)
  moreover have "list_all (path_fails E (base_url s1)) (concat (map snd pps))"
    using Cons.prems(1) steps_base [OF st] by simp
  ultimately have "fst (policies_loop E pps pol s1) = pol" by (intro Cons.IH)
  with t r pp show ?case by simp
qed

lemma try_faq_path_fails:
  assumes "path_fails E (base_url s) p" and "fetched s \<noteq> []"
  shows "fst (try_faq_path E p f s) = (False, f)"
  using assms
  by (auto simp: try_faq_path_def split: option.splits prod.splits sum.splits
      dest: fetch_url_no_200)

lemma faqs_loop_fails:
  "list_all (path_fails E (base_url s)) ps \<Longrightarrow> fetched s \<noteq> [] \<Longrightarrow>
     fst (faqs_loop E ps f s) = f"
proof (induction ps arbitrary: s)
  case Nil
  then show ?case by simp
next
  case (Cons p ps)
  obtain r s1 where t: "try_faq_path E p f s = (r, s1)" by (metis surj_pair)
  from Cons.prems have "path_fails E (base_url s) p" by simp
  with try_faq_path_fails [of E s p f] Cons.prems(2) t have r: "r = (False, f)" by simp
  note st = steps_try_faq_path [OF t]
  have "fetched s1 \<noteq> []" using st Cons.prems(2) by (rule steps_later)
  moreover have "list_all (path_fails E (base_url s1)) ps"
    using Cons.prems(1) steps_base [OF st] by simp
  ultimately have "fst (faqs_loop E ps f s1) = f" by (intro Cons.IH)
  with t r show ?case by simp
qed

lemma try_contact_path_fails:
  assumes "path_fails E (base_url s) p" and "fetched s \<noteq> []"
  shows "fst (try_contact_path E p s) = None"
  using assms
  by (auto simp: try_contact_path_def split: option.splits prod.splits sum.splits
      dest: fetch_url_no_200)

lemma contact_paths_loop_fails:
  "list_all (path_fails E (base_url s)) ps \<Longrightarrow> fetched s \<noteq> [] \<Longrightarrow>
     fst (contact_paths_loop E ps s) = None"
proof (induction ps arbitrary: s)
  case Nil
  then show ?case by simp
next
  case (Cons p ps)
  obtain r s1 where t: "try_contact_path E p s = (r, s1)" by force
  from Cons.prems have "path_fails E (base_url s) p" by simp
  with try_contact_path_fails [of E s p] Cons.prems(2) t have r: "r = None" by simp
  note st = steps_try_contact_path [OF t]
  have "fetched s1 \<noteq> []" using st Cons.prems(2) by (rule steps_later)
  moreover have "list_all (path_fails E (base_url s1)) ps"
    using Cons.prems(1) steps_base [OF st] by simp
  ultimately have "fst (contact_paths_loop E ps s1) = None" by (intro Cons.IH)
  with t r show ?case by simp
qed

lemma hero_loop_no_catalog: "hero_loop [] ls seen hero = hero"
  by (induction ls arbitrary: seen) (simp_all add: Let_def)

lemma extract_all_homepage_only:
  assumes q: "only_homepage E (base_url s)" and l: "fetched s \<noteq> []" and d: "soup s = Some d"
    and li: "links_loop E (base_url s) (anchors_with_href d) Links_default = Some li"
  shows "fst (extract_all E b s) =
           Inr \<lparr>brand = b, products = [], hero_products = [], policies = Policies_default,
                faqs = [], socials = socials_loop (anchors_with_href d) Socials_default,
                contact = contact_of d, about = None, links = li\<rparr>"
proof -
  let ?dead = "\<lambda>ps. list_all (path_fails E (base_url s)) ps"
  from q have q1: "?dead product_endpoints" and q2: "?dead (concat (map snd policy_paths))"
    and q3: "?dead faq_paths" and q4: "?dead contact_paths" and q5: "?dead about_paths"
    by (simp_all add: only_homepage_def candidate_paths_def)
  obtain ps s2 where e2: "fetch_products E s = (ps, s2)" by force
  have ps: "ps = []"
    using products_loop_fails [OF q1 l, of "[]"] e2 by (simp add: fetch_products_def)
  note t2 = steps_fetch_products [OF e2]
  have l2: "fetched s2 \<noteq> []" and d2: "soup s2 = Some d" and b2: "base_url s2 = base_url s"
    using t2 l d by (auto dest: steps_later steps_soup steps_base)
  have e3: "fetch_hero_products E ps s2 = (Inr [], s2)"
    using d2 ps by (simp add: fetch_hero_products_def ensure_soup_def hero_loop_no_catalog)
  obtain pol s4 where e4: "fetch_policies E s2 = (pol, s4)" by force
  have pol: "pol = Policies_default"
    using policies_loop_fails [of E s2 policy_paths Policies_default] q2 l2 b2 e4
    by (simp add: fetch_policies_def)
  note t4 = steps_fetch_policies [OF e4]
  have l4: "fetched s4 \<noteq> []" and d4: "soup s4 = Some d" and b4: "base_url s4 = base_url s"
    using t4 l2 d2 b2 by (auto dest: steps_later steps_soup steps_base)
  obtain fq s5 where e5: "fetch_faqs E s4 = (fq, s5)" by force
  have fq: "fq = []"
    using faqs_loop_fails [of E s4 faq_paths "[]"] q3 l4 b4 e5 by (simp add: fetch_faqs_def)
  note t5 = steps_fetch_faqs [OF e5]
  have l5: "fetched s5 \<noteq> []" and d5: "soup s5 = Some d" and b5: "base_url s5 = base_url s"
    using t5 l4 d4 b4 by (auto dest: steps_later steps_soup steps_base)
  have e6: "fetch_social_handles E s5 =
              (Inr (socials_loop (anchors_with_href d) Socials_default), s5)"
    using d5 by (simp add: fetch_social_handles_def ensure_soup_def)
  obtain cp s7 where c7: "contact_paths_loop E contact_paths s5 = (cp, s7)" by force
  have cp: "cp = None"
    using contact_paths_loop_fails [of E s5 contact_paths] q4 l5 b5 c7 by simp
  have e7: "fetch_contact_info E s5 = (Inr (contact_of d), s7)"
    using d5 c7 cp by (simp add: fetch_contact_info_def ensure_soup_def)
  note t7 = steps_contact_paths_loop [OF c7]
  have l7: "fetched s7 \<noteq> []" and d7: "soup s7 = Some d" and b7: "base_url s7 = base_url s"
    using t7 l5 d5 b5 by (auto dest: steps_later steps_soup steps_base)
  obtain ab s8 where e8: "fetch_about E s7 = (ab, s8)" by force
  have ab: "ab = None"
    using text_paths_loop_fails [of E s7 about_paths] q5 l7 b7 e8 by (simp add: fetch_about_def)
  note t8 = steps_fetch_about [OF e8]
  have d8: "soup s8 = Some d"
    using t8 d7 by (rule steps_soup)
  have b8: "base_url s8 = base_url s"
    using t8 b7 by (simp add: steps_base)
  have e9: "fetch_important_links E s8 = (Inr li, s8)"
    using d8 b8 li by (simp add: fetch_important_links_def ensure_soup_def)
  show ?thesis
    using e2 e3 e4 e5 e6 e7 e8 e9 ps pol fq ab by (simp add: extract_all_def)
qed

lemma homepage_only_run:
  assumes "http_get E [] u = Resp content 200"
    and "shopify_indicators content (html_parser E content)"
    and "only_homepage E u"
    and "links_loop E u (anchors_with_href (html_parser E content)) Links_default = Some li"
  shows "fst (get_brand_context E (new_scraper u)) =
           Inr \<lparr>brand = netloc E u, products = [], hero_products = [],
                policies = Policies_default, faqs = [],
                socials = socials_loop (anchors_with_href (html_parser E content)) Socials_default,
                contact = contact_of (html_parser E content), about = None, links = li\<rparr>"
proof -
  let ?d = "html_parser E content"
  let ?s1 = "(new_scraper u)\<lparr>session := True, fetched := [u], opened := 1, soup := Some ?d,
               is_shopify := True\<rparr>"
  have c: "check_is_shopify E (new_scraper u) = (Inr True, ?s1)"
    using assms(1,2)
    by (simp add: check_is_shopify_def fetch_url_def init_session_def new_scraper_def Let_def)
  have "fst (extract_all E (netloc E u) ?s1) =
           Inr \<lparr>brand = netloc E u, products = [], hero_products = [],
                policies = Policies_default, faqs = [],
                socials = socials_loop (anchors_with_href ?d) Socials_default,
                contact = contact_of ?d, about = None, links = li\<rparr>"
    using assms(3,4) by (intro extract_all_homepage_only) (simp_all add: new_scraper_def)
  moreover obtain r s9 where "extract_all E (netloc E u) ?s1 = (r, s9)" by (metis surj_pair)
  ultimately show ?thesis
    using c by (simp add: get_brand_context_def brand_context_body_def new_scraper_def)
qed

lemmas shop_home_defs =
  shop_home_site_def example_site_def example_parser_def shop_home_def shop_home_dom_def

lemma shop_home_facts:
  "http_get shop_home_site [] ''https://shop.example'' = Resp shop_home 200"
  "html_parser shop_home_site shop_home = shop_home_dom"
  "shopify_indicators shop_home shop_home_dom"
  "only_homepage shop_home_site ''https://shop.example''"
  "netloc shop_home_site ''https://shop.example'' = ''shop.example''"
  by (simp_all add: shop_home_defs only_homepage_def path_fails_def candidate_paths_def
      product_endpoints_def policy_paths_def faq_paths_def contact_paths_def about_paths_def
      example_urljoin_def shopify_indicators_def has_sub_def example_netloc_def)

lemma shop_home_anchors:
  "anchors_with_href shop_home_dom =
     [Tag ''a'' [(''href'', ''https://instagram.com/shop'')] [Text ''Instagram'']]"
  by (simp add: anchors_with_href_def find_all_def shop_home_dom_def)

lemma shop_home_socials:
  "socials_loop (anchors_with_href shop_home_dom) Socials_default =
     Socials_default\<lparr>instagram := Some ''@shop''\<rparr>"
  by (simp add: shop_home_anchors social_patterns_def lower_href_def attr_or_empty_def
      py_lower_def lower_char_def in_range_def has_sub_def username_or_href_def is_word_def is_letter_def
      in_range_def is_digit_def in_range_def)

lemma shop_home_links:
  "links_loop shop_home_site ''https://shop.example'' (anchors_with_href shop_home_dom)
     Links_default = Some Links_default"
  by (simp add: shop_home_anchors link_patterns_def lower_href_def lower_text_def
      attr_or_empty_def get_text_def py_lower_def lower_char_def in_range_def has_sub_def has_gaps_def)

lemma shop_home_text: "get_text shop_home_dom = ''InstagramMail hello@shop.example''"
  by (simp add: get_text_def shop_home_dom_def)

lemma shop_home_emails:
  "re_findall email_here ''InstagramMail hello@shop.example'' = [''hello@shop.example'']"
  by (simp add: re_findall_def email_here_def email_domain_len_def is_email_char_def
      is_word_def is_letter_def in_range_def is_digit_def in_range_def Let_def)

lemma shop_home_phones:
  "re_findall phone_here ''InstagramMail hello@shop.example'' = []"
  by (simp add: re_findall_def phone_here_def is_phone_char_def is_digit_def in_range_def is_space_def in_range_def Let_def)

lemma shop_home_contact_links:
  "emails_in_links shop_home_dom = {}" "phones_in_links shop_home_dom = {}"
  by (simp_all add: emails_in_links_def phones_in_links_def find_all_def attr_has_def has_sub_def
      shop_home_dom_def)

lemma shop_home_contact:
  "contact_of shop_home_dom = \<lparr>emails = {''hello@shop.example''}, phones = {}\<rparr>"
  by (simp add: contact_of_def shop_home_text shop_home_emails phones_in_text_def shop_home_phones
      shop_home_contact_links)

section \<open>Hero products\<close>

lemma find_in_set: "List.find P xs = Some x \<Longrightarrow> x \<in> set xs"
  by (auto simp: find_Some_iff)

lemma hero_loop_subset:
  "set (hero_loop all_products ls seen hero) \<subseteq> set hero \<union> set all_products"
proof (induction ls arbitrary: seen hero)
  case Nil
  then show ?case by simp
next
  case (Cons l ls)
  define h where "h = handle_of_href (attr_or_empty ''href'' l)"
  show ?case
  proof (cases "h \<noteq> [] \<and> h \<notin> seen")
    case False
    then show ?thesis using Cons.IH [of seen hero] by (auto simp: h_def Let_def)
  next
    case True
    show ?thesis
    proof (cases "List.find (\<lambda>p. handle p = Some h) all_products")
      case None
      with True show ?thesis using Cons.IH [of "insert h seen" hero] by (simp add: h_def Let_def)
    next
      case (Some p)
      then have "p \<in> set all_products" by (rule find_in_set)
      moreover have "set (hero_loop all_products ls (insert h seen) (hero @ [p]))
                       \<subseteq> set (hero @ [p]) \<union> set all_products"
        by (rule Cons.IH)
      ultimately have "set (hero_loop all_products ls (insert h seen) (hero @ [p]))
                       \<subseteq> set hero \<union> set all_products" by auto
      with True Some show ?thesis by (simp add: h_def [symmetric] Let_def)
    qed
  qed
qed

lemma hero_products_sound:
  assumes "fetch_hero_products E all_products s = (Inr hero, s')"
  shows "length hero \<le> 10 \<and> set hero \<subseteq> set all_products"
proof -
  from assms obtain ls where h: "hero = take 10 (hero_loop all_products ls {} [])"
    by (auto simp: fetch_hero_products_def split: prod.splits sum.splits)
  have "set hero \<subseteq> set (hero_loop all_products ls {} [])"
    unfolding h by (rule set_take_subset)
  also have "\<dots> \<subseteq> set all_products"
    using hero_loop_subset [of all_products ls "{}" "[]"] by simp
  finally have "set hero \<subseteq> set all_products" .
  moreover have "length hero \<le> 10" unfolding h by simp
  ultimately show ?thesis by simp
qed

text \<open>The same of the document of a run: its hero products are among its products.\<close>

lemma document_hero_products:
  assumes "get_brand_context E s = (Inr doc, s')"
  shows "length (hero_products doc) \<le> 10 \<and> set (hero_products doc) \<subseteq> set (products doc)"
proof -
  from assms obtain b s1 s9 where x: "extract_all E b s1 = (Inr doc, s9)"
    by (auto simp: get_brand_context_def brand_context_body_def
        split: prod.splits sum.splits if_splits)
  obtain ps s2 where e2: "fetch_products E s1 = (ps, s2)" by force
  obtain r3 s3 where e3: "fetch_hero_products E ps s2 = (r3, s3)" by force
  from x e2 e3 obtain hero where r3: "r3 = Inr hero"
    and d: "products doc = ps" "hero_products doc = hero"
    by (cases r3) (auto simp: extract_all_def split: prod.splits sum.splits)
  from hero_products_sound [of E ps s2 hero s3] e3 r3 d show ?thesis by simp
qed

lemma hero_example:
  "fetch_hero_products E [tee, mug, cap]
       ((new_scraper ''https://shop.example'')\<lparr>soup := Some hero_home\<rparr>) =
     (Inr [tee, mug], (new_scraper ''https://shop.example'')\<lparr>soup := Some hero_home\<rparr>)"
  by (simp add: fetch_hero_products_def ensure_soup_def new_scraper_def hero_home_def find_all_def
        attr_has_def has_sub_def handle_of_href_def attr_or_empty_def tee_def mug_def cap_def
        Let_def)

section \<open>Products: the two feeds\<close>

lemma make_product_examples:
  "make_product (example_site a b c) ''https://shop.example'' tee_json = Some tee"
  "make_product (example_site a b c) ''https://shop.example'' mug_json = Some mug"
  "make_product (example_site a b c) ''https://shop.example'' cap_json = Some cap"
  "make_product (example_site a b c) ''https://shop.example'' hat_json = None"
  by (simp_all add: make_product_def tee_json_def mug_json_def cap_json_def hat_json_def
      tee_def mug_def cap_def example_site_def get_product_price_def get_product_image_def
      first_field_def product_tags_def dict_get_def example_urljoin_def example_Product_init_def
      has_sub_def)


lemma convert_all_eq:
  "convert_all E b items acc = (all_convert E b items, acc @ converted E b items)"
proof (induction items arbitrary: acc)
  case Nil
  then show ?case by (simp add: all_convert_def converted_def map_filter_simps)
next
  case (Cons x items)
  show ?case
  proof (cases "make_product E b x")
    case None
    then show ?thesis by (simp add: all_convert_def converted_def map_filter_simps)
  next
    case (Some p)
    with Cons.IH [of "acc @ [p]"] show ?thesis
      by (simp add: all_convert_def converted_def map_filter_simps)
  qed
qed

lemma try_endpoint_items:
  assumes "urljoin E (base_url s) endpoint = Some u"
    and "feed_items E (fetched s) u = Some items"
  shows "try_endpoint E endpoint acc s =
           (convert_all E (base_url s) items acc, after_requests s [u])"
  using assms
  by (auto simp: try_endpoint_def feed_items_def fetch_url_def after_requests_def
      init_session_keeps Let_def split: response.splits option.splits if_splits)

lemma fetch_products_first:
  assumes "urljoin E (base_url s) ''/products.json?limit=250'' = Some u1"
    and "feed_items E (fetched s) u1 = Some items"
    and "all_convert E (base_url s) items"
  shows "fetch_products E s = (converted E (base_url s) items, after_requests s [u1])"
  using try_endpoint_items [OF assms(1,2), of "[]"] assms(3)
  by (simp add: fetch_products_def product_endpoints_def convert_all_eq)

lemma fetch_products_mixed:
  assumes "urljoin E (base_url s) ''/products.json?limit=250'' = Some u1"
    and "feed_items E (fetched s) u1 = Some items1"
    and "\<not> all_convert E (base_url s) items1"
    and "urljoin E (base_url s) ''/collections/all/products.json?limit=250'' = Some u2"
    and "feed_items E (fetched s @ [u1]) u2 = Some items2"
  shows "fetch_products E s =
           (converted E (base_url s) items1 @ converted E (base_url s) items2,
            after_requests s [u1, u2])"
proof -
  let ?s1 = "after_requests s [u1]"
  let ?ps1 = "converted E (base_url s) items1"
  have one: "try_endpoint E ''/products.json?limit=250'' [] s = ((False, ?ps1), ?s1)"
    using try_endpoint_items [OF assms(1,2), of "[]"] assms(3) by (simp add: convert_all_eq)
  have "try_endpoint E ''/collections/all/products.json?limit=250'' ?ps1 ?s1 =
          (convert_all E (base_url ?s1) items2 ?ps1, after_requests ?s1 [u2])"
    using assms(4,5) by (intro try_endpoint_items) (simp_all add: after_requests_keeps)
  then have two: "try_endpoint E ''/collections/all/products.json?limit=250'' ?ps1 ?s1 =
          ((all_convert E (base_url s) items2, ?ps1 @ converted E (base_url s) items2),
           after_requests s [u1, u2])"
    by (simp add: after_requests_keeps after_requests_append convert_all_eq)
  show ?thesis
    using one two by (simp add: fetch_products_def product_endpoints_def)
qed

lemmas feed_example_defs =
  feed_items_def example_site_def example_feeds_def feed_empty_def feed_three_def
  feed_partial_def feed_cap_def example_urljoin_def

lemma empty_first_site_feed:
  "urljoin empty_first_site ''https://shop.example'' ''/products.json?limit=250'' =
     Some ''https://shop.example/products.json?limit=250''"
  "feed_items empty_first_site [] ''https://shop.example/products.json?limit=250'' = Some []"
  "feed_items empty_first_site [''https://shop.example/products.json?limit=250'']
     ''https://shop.example/collections/all/products.json?limit=250'' =
     Some [tee_json, mug_json, cap_json]"
  by (simp_all add: empty_first_site_def feed_example_defs)

lemma partial_site_feed:
  "urljoin partial_site ''https://shop.example'' ''/products.json?limit=250'' =
     Some ''https://shop.example/products.json?limit=250''"
  "urljoin partial_site ''https://shop.example'' ''/collections/all/products.json?limit=250'' =
     Some ''https://shop.example/collections/all/products.json?limit=250''"
  "feed_items partial_site [] ''https://shop.example/products.json?limit=250'' =
     Some ([mug_json] @ hat_json # [tee_json])"
  "feed_items partial_site ([] @ [''https://shop.example/products.json?limit=250''])
     ''https://shop.example/collections/all/products.json?limit=250'' = Some [cap_json]"
  by (simp_all add: partial_site_def feed_example_defs)

lemma converted_examples:
  "all_convert (example_site a b c) ''https://shop.example'' []"
  "converted (example_site a b c) ''https://shop.example'' [] = []"
  "\<not> all_convert (example_site a b c) ''https://shop.example'' [mug_json, hat_json, tee_json]"
  "converted (example_site a b c) ''https://shop.example'' [mug_json, hat_json, tee_json] = [mug]"
  "converted (example_site a b c) ''https://shop.example'' [cap_json] = [cap]"
  "converted (example_site a b c) ''https://shop.example'' [tee_json, mug_json, cap_json] =
     [tee, mug, cap]"
  by (simp_all add: all_convert_def converted_def map_filter_simps make_product_examples)

lemma partial_site_run:
  "fst (fetch_products partial_site (new_scraper ''https://shop.example'')) = [mug, cap] \<and>
   fetched (snd (fetch_products partial_site (new_scraper ''https://shop.example''))) =
     [''https://shop.example/products.json?limit=250'',
      ''https://shop.example/collections/all/products.json?limit=250'']"
proof -
  let ?s = "new_scraper ''https://shop.example''"
  have b: "base_url ?s = ''https://shop.example''" "fetched ?s = []"
    by (simp_all add: new_scraper_def)
  have n: "\<not> all_convert partial_site (base_url ?s) ([mug_json] @ hat_json # [tee_json])"
    by (simp add: b partial_site_def converted_examples)
  have "fetch_products partial_site ?s =
          (converted partial_site (base_url ?s) ([mug_json] @ hat_json # [tee_json]) @
           converted partial_site (base_url ?s) [cap_json],
           after_requests ?s
             [''https://shop.example/products.json?limit=250'',
              ''https://shop.example/collections/all/products.json?limit=250''])"
    using partial_site_feed n by (intro fetch_products_mixed) (simp_all add: b)
  then show ?thesis
    by (simp add: after_requests_keeps b partial_site_def converted_examples)
qed

lemma try_endpoint_none:
  assumes "urljoin E (base_url s) endpoint = Some u"
    and "feed_items E (fetched s) u = None"
  shows "try_endpoint E endpoint acc s = ((False, acc), after_requests s [u])"
  using assms
  by (auto simp: try_endpoint_def feed_items_def fetch_url_def after_requests_def
      init_session_keeps Let_def split: response.splits option.splits if_splits)

lemma try_endpoint_feed:
  assumes "urljoin E (base_url s) endpoint = Some u"
  shows "try_endpoint E endpoint acc s =
           ((feed_valid E (base_url s) (fetched s) u,
             acc @ feed_products E (base_url s) (fetched s) u),
            after_requests s [u])"
proof (cases "feed_items E (fetched s) u")
  case None
  with try_endpoint_none [OF assms None] show ?thesis
    by (simp add: feed_valid_def feed_products_def)
next
  case (Some items)
  with try_endpoint_items [OF assms Some] show ?thesis
    by (simp add: feed_valid_def feed_products_def convert_all_eq)
qed

lemma fetch_products_valid_first:
  assumes "urljoin E (base_url s) ''/products.json?limit=250'' = Some u1"
    and "feed_valid E (base_url s) (fetched s) u1"
  shows "fetch_products E s =
           (feed_products E (base_url s) (fetched s) u1, after_requests s [u1])"
  using try_endpoint_feed [OF assms(1), of "[]"] assms(2)
  by (simp add: fetch_products_def product_endpoints_def)

lemma fetch_products_invalid_first:
  assumes "urljoin E (base_url s) ''/products.json?limit=250'' = Some u1"
    and "\<not> feed_valid E (base_url s) (fetched s) u1"
    and "urljoin E (base_url s) ''/collections/all/products.json?limit=250'' = Some u2"
  shows "fetch_products E s =
           (feed_products E (base_url s) (fetched s) u1 @
            feed_products E (base_url s) (fetched s @ [u1]) u2,
            after_requests s [u1, u2])"
proof -
  let ?s1 = "after_requests s [u1]"
  let ?ps1 = "feed_products E (base_url s) (fetched s) u1"
  have one: "try_endpoint E ''/products.json?limit=250'' [] s = ((False, ?ps1), ?s1)"
    using try_endpoint_feed [OF assms(1), of "[]"] assms(2) by simp
  have "urljoin E (base_url ?s1) ''/collections/all/products.json?limit=250'' = Some u2"
    using assms(3) by (simp add: after_requests_keeps)
  from try_endpoint_feed [OF this, of ?ps1]
  have two: "try_endpoint E ''/collections/all/products.json?limit=250'' ?ps1 ?s1 =
          ((feed_valid E (base_url s) (fetched s @ [u1]) u2,
            ?ps1 @ feed_products E (base_url s) (fetched s @ [u1]) u2),
           after_requests s [u1, u2])"
    by (simp add: after_requests_keeps after_requests_append)
  show ?thesis
    using one two by (simp add: fetch_products_def product_endpoints_def)
qed

lemma second_only_site_feed:
  "urljoin second_only_site ''https://shop.example'' ''/products.json?limit=250'' =
     Some ''https://shop.example/products.json?limit=250''"
  "urljoin second_only_site ''https://shop.example''
     ''/collections/all/products.json?limit=250'' =
     Some ''https://shop.example/collections/all/products.json?limit=250''"
  "feed_items second_only_site [] ''https://shop.example/products.json?limit=250'' = None"
  "feed_items second_only_site [''https://shop.example/products.json?limit=250'']
     ''https://shop.example/collections/all/products.json?limit=250'' =
     Some [tee_json, mug_json, cap_json]"
  by (simp_all add: second_only_site_def feed_example_defs)

lemma empty_first_site_valid:
  "feed_valid empty_first_site ''https://shop.example'' []
     ''https://shop.example/products.json?limit=250''"
  "feed_products empty_first_site ''https://shop.example'' []
     ''https://shop.example/products.json?limit=250'' = []"
  by (simp_all add: feed_valid_def feed_products_def empty_first_site_feed)
    (simp_all add: empty_first_site_def converted_examples)

lemma second_only_site_valid:
  "\<not> feed_valid second_only_site ''https://shop.example'' []
     ''https://shop.example/products.json?limit=250''"
  "feed_products second_only_site ''https://shop.example'' []
     ''https://shop.example/products.json?limit=250'' = []"
  "feed_products second_only_site ''https://shop.example''
     [''https://shop.example/products.json?limit=250'']
     ''https://shop.example/collections/all/products.json?limit=250'' = [tee, mug, cap]"
    apply (simp_all only: feed_valid_def feed_products_def second_only_site_feed)
    apply (simp_all add: second_only_site_def converted_examples)
  done

section \<open>How a run ends at the homepage\<close>

lemma check_is_shopify_rejects:
  assumes "http_get E (fetched s) (base_url s) = Resp content 200"
    and "\<not> shopify_indicators content (html_parser E content)"
  shows "\<exists>s1. check_is_shopify E s = (Inr False, s1) \<and> fetched s1 = fetched s @ [base_url s]"
  using assms
  by (simp add: check_is_shopify_def fetch_url_def init_session_def Let_def)

lemma rejected_run:
  assumes "http_get E (fetched s) (base_url s) = Resp content 200"
    and "\<not> shopify_indicators content (html_parser E content)"
  shows "fst (get_brand_context E s) = Inl InvalidShopifyStoreError \<and>
         fetched (snd (get_brand_context E s)) = fetched s @ [base_url s]"
proof -
  from check_is_shopify_rejects [OF assms] obtain s1
    where c: "check_is_shopify E s = (Inr False, s1)" and f: "fetched s1 = fetched s @ [base_url s]"
    by blast
  from c have "brand_context_body E s = (Inl InvalidShopifyStoreError, s1)"
    by (simp add: brand_context_body_def)
  with f show ?thesis
    by (simp add: get_brand_context_def close_session_def)
qed

lemma unreachable_run:
  assumes "http_get E (fetched s) (base_url s) = ClientError"
  shows "fst (get_brand_context E s) = Inl WebsiteNotFoundException"
  using assms
  by (simp add: get_brand_context_def brand_context_body_def check_is_shopify_def fetch_url_def
      init_session_keeps Let_def)

lemma not_200_run:
  assumes "http_get E (fetched s) (base_url s) = Resp content status" and "status \<noteq> 200"
  shows "fst (get_brand_context E s) = Inl WebsiteNotFoundException"
  using assms
  by (simp add: get_brand_context_def brand_context_body_def check_is_shopify_def fetch_url_def
      init_session_keeps Let_def)

lemma unexpected_error_run:
  assumes "http_get E (fetched s) (base_url s) = OtherError"
  shows "fst (get_brand_context E s) = Inl OtherException"
  using assms
  by (simp add: get_brand_context_def brand_context_body_def check_is_shopify_def fetch_url_def
      init_session_keeps Let_def)

section \<open>Socials and links: the last matching anchor\<close>

lemma get_set_social:
  "get_social p (set_social q v so) = (if p = q then Some v else get_social p so)"
  by (cases p; cases q) simp_all

lemma get_social_patterns_loop:
  "get_social p (social_patterns_loop ps href so) =
     (if p \<in> set ps \<and> social_match p href then Some (username_or_href p href)
      else get_social p so)"
  by (induction ps arbitrary: so) (auto simp: get_set_social)

lemma platform_listed: "p \<in> set social_patterns"
  by (cases p) (simp_all add: social_patterns_def)

lemma socials_loop_append:
  "socials_loop (xs @ ys) so = socials_loop ys (socials_loop xs so)"
  by (induction xs arbitrary: so) simp_all

lemma socials_loop_no_match:
  "\<forall>b\<in>set ls. \<not> social_match p (lower_href b) \<Longrightarrow>
     get_social p (socials_loop ls so) = get_social p so"
  by (induction ls arbitrary: so) (simp_all add: get_social_patterns_loop)

lemma socials_loop_last:
  assumes "social_match p (lower_href a)"
    and "\<forall>b\<in>set post. \<not> social_match p (lower_href b)"
  shows "get_social p (socials_loop (pre @ a # post) so) =
           Some (username_or_href p (lower_href a))"
  using assms
  by (simp add: socials_loop_append socials_loop_no_match get_social_patterns_loop platform_listed)

lemma get_set_link:
  "get_link t (set_link q v l) = (if t = q then Some v else get_link t l)"
  by (cases t; cases q) simp_all

lemma get_link_patterns_loop:
  "link_patterns_loop E base ts href txt l = Some l' \<Longrightarrow>
     get_link t l' =
       (if t \<in> set ts \<and> (link_match t href \<or> link_match t txt) then urljoin E base href
        else get_link t l)"
proof (induction ts arbitrary: l)
  case Nil
  then show ?case by simp
next
  case (Cons q ts)
  show ?case
  proof (cases "link_match q href \<or> link_match q txt")
    case False
    with Cons.prems have "link_patterns_loop E base ts href txt l = Some l'" by simp
    from Cons.IH [OF this] False show ?thesis by auto
  next
    case True
    with Cons.prems obtain full where u: "urljoin E base href = Some full"
      and r: "link_patterns_loop E base ts href txt (set_link q full l) = Some l'"
      by (auto split: option.splits)
    from Cons.IH [OF r] True u show ?thesis by (auto simp: get_set_link)
  qed
qed

lemma link_type_listed: "t \<in> set link_patterns"
  by (cases t) (simp_all add: link_patterns_def)

lemma links_loop_append:
  "links_loop E base (xs @ ys) l =
     (case links_loop E base xs l of None \<Rightarrow> None | Some l' \<Rightarrow> links_loop E base ys l')"
  by (induction xs arbitrary: l) (simp_all split: option.splits)

lemma links_loop_no_match:
  "\<forall>b\<in>set ls. \<not> link_hit t b \<Longrightarrow> links_loop E base ls l = Some l' \<Longrightarrow>
     get_link t l' = get_link t l"
proof (induction ls arbitrary: l)
  case Nil
  then show ?case by simp
next
  case (Cons b ls)
  from Cons.prems(2) obtain l1
    where a: "link_patterns_loop E base link_patterns (lower_href b) (lower_text b) l = Some l1"
      and r: "links_loop E base ls l1 = Some l'"
    by (auto split: option.splits)
  have "get_link t l1 = get_link t l"
    using get_link_patterns_loop [OF a, of t] Cons.prems(1) by (simp add: link_hit_def)
  moreover have "get_link t l' = get_link t l1"
    using Cons.prems(1) r by (intro Cons.IH) simp_all
  ultimately show ?case by simp
qed

lemma links_loop_last:
  assumes "link_hit t a"
    and "\<forall>b\<in>set post. \<not> link_hit t b"
    and "links_loop E base (pre @ a # post) l = Some l'"
  shows "get_link t l' = urljoin E base (lower_href a)"
proof -
  from assms(3) obtain l1 l2 where "links_loop E base pre l = Some l1"
    and a: "link_patterns_loop E base link_patterns (lower_href a) (lower_text a) l1 = Some l2"
    and r: "links_loop E base post l2 = Some l'"
    by (auto simp: links_loop_append split: option.splits)
  have "get_link t l2 = urljoin E base (lower_href a)"
    using get_link_patterns_loop [OF a, of t] assms(1) link_type_listed [of t]
    by (simp add: link_hit_def)
  with links_loop_no_match [OF assms(2) r] show ?thesis by simp
qed

lemmas social_example_defs =
  social_home_def ig_first_def contact_link_def ig_second_def help_link_def social_scraper_def
  new_scraper_def anchors_with_href_def find_all_def lower_href_def lower_text_def
  attr_or_empty_def py_lower_def lower_char_def in_range_def get_text_def has_sub_def has_gaps_def

lemma social_example_anchors:
  "anchors_with_href social_home = [ig_first, contact_link] @ ig_second # [help_link]"
  by (simp add: social_example_defs)

lemma social_example_run:
  "fetch_social_handles E social_scraper =
     (Inr (Socials_default\<lparr>instagram := Some ''@second''\<rparr>), social_scraper)"
  by (simp add: fetch_social_handles_def ensure_soup_def social_example_defs Socials_default_def
      social_patterns_def username_or_href_def is_word_def is_letter_def in_range_def is_digit_def in_range_def)

lemma links_example_run:
  "fetch_important_links plain_site social_scraper =
     (Inr (Links_default\<lparr>contact_us := Some ''https://shop.example/pages/help''\<rparr>), social_scraper)"
  by (simp add: fetch_important_links_def ensure_soup_def social_example_defs Links_default_def
      link_patterns_def plain_site_def example_site_def example_urljoin_def)

section \<open>FAQs: one page, one method\<close>

lemma faqs_of_page_empty: "faqs_of_page d [] = page_faqs_spec d"
  by (simp add: faqs_of_page_def page_faqs_spec_def Let_def)

lemma try_faq_path_eq:
  "try_faq_path E path [] s =
     (case faq_page E (base_url s) (fetched s) path of
        None \<Rightarrow> (False, [])
      | Some d \<Rightarrow> (page_faqs_spec d \<noteq> [], page_faqs_spec d),
      after_requests s (requested E (base_url s) [path]))"
  by (simp add: try_faq_path_def faq_page_def requested_def map_filter_simps after_requests_def
      fetch_url_def init_session_keeps faqs_of_page_empty Let_def
      split: option.splits response.splits)

lemma faqs_loop_miss:
  "faq_all_miss E (base_url s) (fetched s) pre \<Longrightarrow>
     faqs_loop E (pre @ rest) [] s =
       faqs_loop E rest [] (after_requests s (requested E (base_url s) pre))"
proof (induction pre arbitrary: s)
  case Nil
  then show ?case by (simp add: requested_def map_filter_simps after_requests_Nil)
next
  case (Cons p pre)
  let ?s1 = "after_requests s (requested E (base_url s) [p])"
  from Cons.prems have m: "faq_miss E (base_url s) (fetched s) p"
    and r: "faq_all_miss E (base_url ?s1) (fetched ?s1) pre"
    by (simp_all add: after_requests_keeps)
  from m have t: "try_faq_path E p [] s = ((False, []), ?s1)"
    by (auto simp: try_faq_path_eq faq_miss_def page_faqs_spec_def split: option.splits)
  have "faqs_loop E ((p # pre) @ rest) [] s = faqs_loop E (pre @ rest) [] ?s1"
    using t by simp
  also have "\<dots> = faqs_loop E rest [] (after_requests ?s1 (requested E (base_url ?s1) pre))"
    using r by (rule Cons.IH)
  also have "after_requests ?s1 (requested E (base_url ?s1) pre) =
             after_requests s (requested E (base_url s) (p # pre))"
    using requested_append [of E "base_url s" "[p]" pre]
    by (simp add: after_requests_append after_requests_keeps)
  finally show ?case .
qed

lemma faqs_loop_hit:
  assumes "faq_all_miss E (base_url s) (fetched s) pre"
    and "faq_page E (base_url s) (fetched s @ requested E (base_url s) pre) path = Some d"
    and "page_faqs_spec d \<noteq> []"
  shows "faqs_loop E (pre @ path # post) [] s =
           (page_faqs_spec d, after_requests s (requested E (base_url s) (pre @ [path])))"
proof -
  let ?s1 = "after_requests s (requested E (base_url s) pre)"
  have "faqs_loop E (pre @ path # post) [] s = faqs_loop E (path # post) [] ?s1"
    using assms(1) by (rule faqs_loop_miss)
  also have "\<dots> = (page_faqs_spec d, after_requests ?s1 (requested E (base_url ?s1) [path]))"
    using assms(2,3) by (simp add: try_faq_path_eq after_requests_keeps)
  also have "after_requests ?s1 (requested E (base_url ?s1) [path]) =
             after_requests s (requested E (base_url s) (pre @ [path]))"
    by (simp add: after_requests_append after_requests_keeps requested_append)
  finally show ?thesis .
qed

lemmas faq_example_defs =
  faq_both_dom_def faq_flat_dom_def accordion_pairs_def accordion_item_def flat_pairs_def
  find_all_def find_first_def attr_has_def has_sub_def get_text_strip_def stripped_strings_def
  py_strip_def is_space_def in_range_def

lemma faq_both_pairs:
  "accordion_pairs faq_both_dom = [\<lparr>question = ''Q1'', answer = ''A1''\<rparr>]"
  "flat_pairs faq_both_dom =
     [\<lparr>question = ''Q1'', answer = ''A1''\<rparr>, \<lparr>question = ''Q2'', answer = ''A2''\<rparr>]"
  by (simp_all add: faq_example_defs)

lemma faq_flat_pairs:
  "accordion_pairs faq_flat_dom = []"
  "flat_pairs faq_flat_dom = [\<lparr>question = ''Q2'', answer = ''A2''\<rparr>]"
  by (simp_all add: faq_example_defs)

lemma faq_site_pages:
  "faq_all_miss faq_site ''https://shop.example'' [] [''/faq'']"
  "requested faq_site ''https://shop.example'' [''/faq''] = [''https://shop.example/faq'']"
  "requested faq_site ''https://shop.example'' [''/faq'', ''/pages/faq''] =
     [''https://shop.example/faq'', ''https://shop.example/pages/faq'']"
  "faq_page faq_site ''https://shop.example'' [''https://shop.example/faq''] ''/pages/faq'' =
     Some faq_both_dom"
  by (simp_all add: faq_miss_def faq_page_def requested_def map_filter_simps faq_site_def
      example_site_def example_urljoin_def example_parser_def faq_both_page_def
      faq_flat_page_def)

lemma faq_flat_site_pages:
  "faq_all_miss faq_flat_site ''https://shop.example'' [] [''/faq'']"
  "requested faq_flat_site ''https://shop.example'' [''/faq''] = [''https://shop.example/faq'']"
  "requested faq_flat_site ''https://shop.example'' [''/faq'', ''/pages/faq''] =
     [''https://shop.example/faq'', ''https://shop.example/pages/faq'']"
  "faq_page faq_flat_site ''https://shop.example'' [''https://shop.example/faq''] ''/pages/faq'' =
     Some faq_flat_dom"
  by (simp_all add: faq_miss_def faq_page_def requested_def map_filter_simps faq_flat_site_def
      example_site_def example_urljoin_def example_parser_def faq_both_page_def
      faq_flat_page_def)

section \<open>Text blocks: the candidate paths\<close>









section \<open>Phones in the text\<close>

lemma findall_from_sound:
  "t \<in> set (findall_from m k s) \<Longrightarrow> \<exists>s'. m s' = Some t"
proof (induction s arbitrary: k)
  case Nil
  then show ?case by simp
next
  case (Cons c cs)
  show ?case
  proof (cases "0 < k")
    case True
    with Cons.prems have "t \<in> set (findall_from m (k - 1) cs)" by simp
    then show ?thesis by (rule Cons.IH)
  next
    case False
    show ?thesis
    proof (cases "m (c # cs)")
      case None
      with False Cons.prems have "t \<in> set (findall_from m 0 cs)" by simp
      then show ?thesis by (rule Cons.IH)
    next
      case (Some x)
      with False Cons.prems have "t = x \<or> t \<in> set (findall_from m (length x - 1) cs)" by simp
      then show ?thesis
      proof
        assume "t = x"
        with Some show ?thesis by blast
      next
        assume "t \<in> set (findall_from m (length x - 1) cs)"
        then show ?thesis by (rule Cons.IH)
      qed
    qed
  qed
qed

lemma phone_here_shape:
  assumes "phone_here s = Some t"
  shows "\<exists>run. (t = run \<or> t = CHR ''+'' # run) \<and> list_all is_phone_char run"
proof -
  have tk: "list_all is_phone_char (take n (takeWhile is_phone_char xs))" for n xs
    by (auto simp: list_all_iff dest!: in_set_takeD set_takeWhileD)
  from assms show ?thesis
    by (auto simp: phone_here_def Let_def tk split: list.splits if_splits)
qed

lemma clean_phone_digits: "list_all is_phone_char run \<Longrightarrow> list_all is_digit (clean_phone run)"
  by (auto simp: list_all_iff clean_phone_def is_phone_char_def)

lemma clean_phone_plus: "clean_phone (CHR ''+'' # run) = CHR ''+'' # clean_phone run"
  by (simp add: clean_phone_def is_space_def in_range_def)

lemma candidate_clean_shape:
  assumes "cand \<in> set (re_findall phone_here txt)"
  shows "list_all is_digit (clean_phone cand) \<or>
         (\<exists>ds. clean_phone cand = CHR ''+'' # ds \<and> list_all is_digit ds)"
proof -
  from assms obtain s' where "phone_here s' = Some cand"
    unfolding re_findall_def by (blast dest: findall_from_sound)
  then obtain run where "cand = run \<or> cand = CHR ''+'' # run" and "list_all is_phone_char run"
    by (blast dest: phone_here_shape)
  then show ?thesis
    by (auto simp: clean_phone_plus dest: clean_phone_digits)
qed

lemmas phone_example_defs =
  phones_in_text_def re_findall_def phone_here_def clean_phone_def is_phone_char_def is_digit_def in_range_def
  is_space_def in_range_def py_strip_def Let_def

lemma phone_example:
  "re_findall phone_here ''Tel (555) 123-4567 ext'' = ['' (555) 123-4567 '']"
  "clean_phone '' (555) 123-4567 '' = ''5551234567''"
  "phones_in_text ''Tel (555) 123-4567 ext'' = {''(555) 123-4567''}"
  by (simp_all add: phone_example_defs)

lemma short_phone_example:
  "re_findall phone_here ''Call +123456789 now'' = [''+123456789 '']"
  "clean_phone ''+123456789 '' = ''+123456789''"
  "phones_in_text ''Call +123456789 now'' = {''+123456789''}"
  by (simp_all add: phone_example_defs)

lemma nbsp_phone_example:
  "re_findall phone_here (''Tel 555'' @ [CHR 0xA0] @ ''123'' @ [CHR 0xA0] @ ''4567 x'') =
     ['' 555'' @ [CHR 0xA0] @ ''123'' @ [CHR 0xA0] @ ''4567 '']"
  "clean_phone ('' 555'' @ [CHR 0xA0] @ ''123'' @ [CHR 0xA0] @ ''4567 '') = ''5551234567''"
  "phones_in_text (''Tel 555'' @ [CHR 0xA0] @ ''123'' @ [CHR 0xA0] @ ''4567 x'') =
     {''555'' @ [CHR 0xA0] @ ''123'' @ [CHR 0xA0] @ ''4567''}"
  by (simp_all add: phone_example_defs)

section \<open>C1: when only the homepage answers, the run succeeds with what the homepage gives\<close>

text \<open>
  Claim C1, as amended. When the homepage answers with status 200 and a Shopify indicator
  holds, and every candidate path and endpoint of the extractors fails (its request fails or
  answers with a status other than 200), \<open>get_brand_context\<close>
  returns a document, provided the links extractor resolves the hrefs of the homepage's
  matching anchors: \<open>products\<close>, \<open>hero_products\<close> and \<open>faqs\<close> are empty, the four policies and
  \<open>about\<close> are absent, and \<open>socials\<close>, \<open>contact\<close> and \<open>links\<close> are what the anchors and the text
  of the homepage give, which are the defaults only when the homepage has nothing that
  matches. The counterexample is a homepage with an Instagram link and an e-mail address.
\<close>

theorem homepage_only_run_succeeds:
  assumes "http_get E [] u = Resp content 200"
    and "shopify_indicators content (html_parser E content)"
    and "only_homepage E u"
    and "links_loop E u (anchors_with_href (html_parser E content)) Links_default = Some li"
  shows "fst (get_brand_context E (new_scraper u)) =
           Inr \<lparr>brand = netloc E u, products = [], hero_products = [],
                policies = Policies_default, faqs = [],
                socials = socials_loop (anchors_with_href (html_parser E content)) Socials_default,
                contact = contact_of (html_parser E content), about = None, links = li\<rparr>"
  using assms by (rule homepage_only_run)

theorem homepage_only_run_succeeds_witness:
  "http_get shop_home_site [] ''https://shop.example'' = Resp shop_home 200 \<and>
   shopify_indicators shop_home (html_parser shop_home_site shop_home) \<and>
   only_homepage shop_home_site ''https://shop.example'' \<and>
   links_loop shop_home_site ''https://shop.example''
     (anchors_with_href (html_parser shop_home_site shop_home)) Links_default = Some Links_default \<and>
   fst (get_brand_context shop_home_site (new_scraper ''https://shop.example'')) =
     Inr \<lparr>brand = ''shop.example'', products = [], hero_products = [],
          policies = Policies_default, faqs = [],
          socials = Socials_default\<lparr>instagram := Some ''@shop''\<rparr>,
          contact = \<lparr>emails = {''hello@shop.example''}, phones = {}\<rparr>,
          about = None, links = Links_default\<rparr>"
proof -
  have l: "links_loop shop_home_site ''https://shop.example''
     (anchors_with_href (html_parser shop_home_site shop_home)) Links_default = Some Links_default"
    using shop_home_links by (simp add: shop_home_facts)
  have i: "shopify_indicators shop_home (html_parser shop_home_site shop_home)"
    by (simp add: shop_home_facts)
  from homepage_only_run_succeeds [OF shop_home_facts(1) i shop_home_facts(4) l] i l
  show ?thesis
    by (simp add: shop_home_facts shop_home_socials shop_home_contact)
qed

theorem homepage_fields_not_default_counterexample:
  "http_get shop_home_site [] ''https://shop.example'' = Resp shop_home 200 \<and>
   shopify_indicators shop_home (html_parser shop_home_site shop_home) \<and>
   only_homepage shop_home_site ''https://shop.example'' \<and>
   fst (get_brand_context shop_home_site (new_scraper ''https://shop.example'')) =
     Inr \<lparr>brand = ''shop.example'', products = [], hero_products = [],
          policies = Policies_default, faqs = [],
          socials = Socials_default\<lparr>instagram := Some ''@shop''\<rparr>,
          contact = \<lparr>emails = {''hello@shop.example''}, phones = {}\<rparr>,
          about = None, links = Links_default\<rparr> \<and>
   Socials_default\<lparr>instagram := Some ''@shop''\<rparr> \<noteq> Socials_default \<and>
   \<lparr>emails = {''hello@shop.example''}, phones = {}\<rparr> \<noteq> Contact_default"
proof -
  have l: "links_loop shop_home_site ''https://shop.example''
     (anchors_with_href (html_parser shop_home_site shop_home)) Links_default = Some Links_default"
    using shop_home_links by (simp add: shop_home_facts)
  have i: "shopify_indicators shop_home (html_parser shop_home_site shop_home)"
    by (simp add: shop_home_facts)
  have run: "fst (get_brand_context shop_home_site (new_scraper ''https://shop.example'')) =
     Inr \<lparr>brand = ''shop.example'', products = [], hero_products = [],
          policies = Policies_default, faqs = [],
          socials = Socials_default\<lparr>instagram := Some ''@shop''\<rparr>,
          contact = \<lparr>emails = {''hello@shop.example''}, phones = {}\<rparr>,
          about = None, links = Links_default\<rparr>"
    using homepage_only_run [OF shop_home_facts(1) i shop_home_facts(4) l]
    by (simp add: shop_home_facts shop_home_socials shop_home_contact)
  have ne: "Socials_default\<lparr>instagram := Some ''@shop''\<rparr> \<noteq> Socials_default"
    "\<lparr>emails = {''hello@shop.example''}, phones = {}\<rparr> \<noteq> Contact_default"
    by (simp_all add: Socials_default_def Contact_default_def)
  from run ne i shop_home_facts(1,4) show ?thesis by simp
qed

section \<open>C2: hero products come from the catalog\<close>

text \<open>
  Claim C2. Whatever the homepage and the catalog, the list \<open>_fetch_hero_products\<close> returns has
  at most 10 products, each of them a product of the catalog it was given, so each handle in it
  is the handle of a product of the catalog.
\<close>

theorem hero_products_from_catalog:
  assumes "fetch_hero_products E all_products s = (Inr hero, s')"
  shows "length hero \<le> 10 \<and> set hero \<subseteq> set all_products \<and>
         handle ` set hero \<subseteq> handle ` set all_products"
  using hero_products_sound [OF assms] by blast

theorem hero_products_from_catalog_witness:
  "fetch_hero_products plain_site [tee, mug, cap]
       ((new_scraper ''https://shop.example'')\<lparr>soup := Some hero_home\<rparr>) =
     (Inr [tee, mug], (new_scraper ''https://shop.example'')\<lparr>soup := Some hero_home\<rparr>) \<and>
   length [tee, mug] \<le> 10 \<and> set [tee, mug] \<subseteq> set [tee, mug, cap] \<and>
   handle ` set [tee, mug] \<subseteq> handle ` set [tee, mug, cap]"
  using hero_products_from_catalog [OF hero_example [of plain_site]] hero_example [of plain_site]
  by simp

section \<open>C3: the catalog stops at the first feed whose records all convert\<close>

text \<open>
  Claim C3, as amended. The two feed endpoints are tried in order, and the first is always
  requested. When it is a valid feed, that is, it answers with status 200 and a JSON document
  with a products collection whose records all convert to products, the result is those
  products and the second endpoint is never requested; this holds for an empty collection
  too, where the result is the empty list. In every other case (the request fails, the status
  is not 200, the body is not JSON, it has no products collection, or a record of the
  collection does not convert) the second endpoint, once its URL is resolved, is requested
  next, and the result is the
  products converted from the first feed before the failure, followed by those of the second.
  The counterexample to the claim as written is a first feed with status 200 and a products
  collection whose second record has \<open>tags\<close> \<open>null\<close>: the second endpoint is requested.
\<close>

theorem products_stop_at_first_valid_feed:
  assumes "urljoin E (base_url s) ''/products.json?limit=250'' = Some u1"
  shows "(feed_valid E (base_url s) (fetched s) u1 \<longrightarrow>
            fst (fetch_products E s) = feed_products E (base_url s) (fetched s) u1 \<and>
            fetched (snd (fetch_products E s)) = fetched s @ [u1]) \<and>
         (\<not> feed_valid E (base_url s) (fetched s) u1 \<and>
          urljoin E (base_url s) ''/collections/all/products.json?limit=250'' = Some u2 \<longrightarrow>
            fst (fetch_products E s) =
              feed_products E (base_url s) (fetched s) u1 @
              feed_products E (base_url s) (fetched s @ [u1]) u2 \<and>
            fetched (snd (fetch_products E s)) = fetched s @ [u1, u2])"
  using fetch_products_valid_first [OF assms] fetch_products_invalid_first [OF assms]
  by (simp add: after_requests_keeps)

theorem products_stop_at_first_valid_feed_witness:
  "(feed_valid empty_first_site ''https://shop.example'' []
      ''https://shop.example/products.json?limit=250'' \<and>
    fst (fetch_products empty_first_site (new_scraper ''https://shop.example'')) = [] \<and>
    fetched (snd (fetch_products empty_first_site (new_scraper ''https://shop.example''))) =
      [''https://shop.example/products.json?limit=250'']) \<and>
   (\<not> feed_valid second_only_site ''https://shop.example'' []
      ''https://shop.example/products.json?limit=250'' \<and>
    fst (fetch_products second_only_site (new_scraper ''https://shop.example'')) =
      [tee, mug, cap] \<and>
    fetched (snd (fetch_products second_only_site (new_scraper ''https://shop.example''))) =
      [''https://shop.example/products.json?limit=250'',
       ''https://shop.example/collections/all/products.json?limit=250''])"
proof -
  let ?s = "new_scraper ''https://shop.example''"
  have b: "base_url ?s = ''https://shop.example''" "fetched ?s = []"
    by (simp_all add: new_scraper_def)
  have one: "urljoin empty_first_site (base_url ?s) ''/products.json?limit=250'' =
      Some ''https://shop.example/products.json?limit=250''"
    by (simp add: b empty_first_site_feed)
  have two: "urljoin second_only_site (base_url ?s) ''/products.json?limit=250'' =
      Some ''https://shop.example/products.json?limit=250''"
    by (simp add: b second_only_site_feed)
  show ?thesis
    using products_stop_at_first_valid_feed [OF one]
      products_stop_at_first_valid_feed [OF two,
        of "''https://shop.example/collections/all/products.json?limit=250''"]
    by (simp add: b empty_first_site_valid second_only_site_valid second_only_site_feed)
qed

theorem second_feed_fetched_after_valid_first_counterexample:
  "feed_items partial_site [] ''https://shop.example/products.json?limit=250'' =
     Some [mug_json, hat_json, tee_json] \<and>
   fetched (snd (fetch_products partial_site (new_scraper ''https://shop.example''))) =
     [''https://shop.example/products.json?limit=250'',
      ''https://shop.example/collections/all/products.json?limit=250'']"
  using partial_site_run partial_site_feed(3) by simp

section \<open>C4: a site that is not a Shopify store is rejected after one request\<close>

text \<open>
  Claim C4. When the homepage answers with status 200 and none of the five Shopify indicators
  holds, \<open>get_brand_context\<close> raises \<open>InvalidShopifyStoreError\<close> and returns no document, and
  the only request of the run is the one for the homepage.
\<close>

theorem rejected_before_any_other_fetch:
  assumes "http_get E (fetched s) (base_url s) = Resp content 200"
    and "\<not> shopify_indicators content (html_parser E content)"
  shows "fst (get_brand_context E s) = Inl InvalidShopifyStoreError \<and>
         fetched (snd (get_brand_context E s)) = fetched s @ [base_url s]"
  using assms by (rule rejected_run)

theorem rejected_before_any_other_fetch_witness:
  "http_get plain_site [] ''https://plain.example'' = Resp plain_page 200 \<and>
   \<not> shopify_indicators plain_page (html_parser plain_site plain_page) \<and>
   fst (get_brand_context plain_site (new_scraper ''https://plain.example'')) =
     Inl InvalidShopifyStoreError \<and>
   fetched (snd (get_brand_context plain_site (new_scraper ''https://plain.example''))) =
     [''https://plain.example'']"
proof -
  have h1: "http_get plain_site (fetched (new_scraper ''https://plain.example''))
              (base_url (new_scraper ''https://plain.example'')) = Resp plain_page 200"
    by (simp add: plain_site_def example_site_def new_scraper_def)
  have h2: "\<not> shopify_indicators plain_page (html_parser plain_site plain_page)"
    by (simp add: shopify_indicators_def plain_site_def example_site_def example_parser_def plain_page_def
        plain_dom_def has_sub_def find_first_def attr_has_def)
  from rejected_before_any_other_fetch [OF h1 h2] h1 h2 show ?thesis
    by (simp add: new_scraper_def)
qed

section \<open>C5: the session is closed once\<close>

text \<open>
  Claim C5. Whatever a run of \<open>get_brand_context\<close> returns or raises, the state it leaves has
  no open session and one more closed session than before, and it opened one session unless one
  was open already: a new scraper ends with one session opened and one closed.
\<close>

theorem session_released_once:
  "closed (snd (get_brand_context E s)) = closed s + 1 \<and>
   \<not> session (snd (get_brand_context E s)) \<and>
   opened (snd (get_brand_context E s)) = (if session s then opened s else opened s + 1)"
proof -
  obtain r s1 where b: "brand_context_body E s = (r, s1)" by force
  from brand_context_body_state [OF b] b show ?thesis
    by (simp add: get_brand_context_def close_session_def)
qed

theorem session_released_once_witness:
  "fst (get_brand_context down_site (new_scraper ''https://down.example'')) =
     Inl WebsiteNotFoundException \<and>
   closed (snd (get_brand_context down_site (new_scraper ''https://down.example''))) = 1 \<and>
   \<not> session (snd (get_brand_context down_site (new_scraper ''https://down.example''))) \<and>
   opened (snd (get_brand_context down_site (new_scraper ''https://down.example''))) = 1 \<and>
   fst (get_brand_context plain_site (new_scraper ''https://plain.example'')) =
     Inl InvalidShopifyStoreError \<and>
   closed (snd (get_brand_context plain_site (new_scraper ''https://plain.example''))) = 1 \<and>
   \<not> session (snd (get_brand_context plain_site (new_scraper ''https://plain.example''))) \<and>
   \<not> isl (fst (get_brand_context shop_home_site (new_scraper ''https://shop.example''))) \<and>
   closed (snd (get_brand_context shop_home_site (new_scraper ''https://shop.example''))) = 1 \<and>
   \<not> session (snd (get_brand_context shop_home_site (new_scraper ''https://shop.example'')))"
proof -
  have d: "fst (get_brand_context down_site (new_scraper ''https://down.example'')) =
             Inl WebsiteNotFoundException"
    by (rule unreachable_run) (simp add: down_site_def example_site_def)
  have p: "fst (get_brand_context plain_site (new_scraper ''https://plain.example'')) =
             Inl InvalidShopifyStoreError"
    using rejected_run [of plain_site "new_scraper ''https://plain.example''" plain_page]
    by (simp add: plain_site_def example_site_def new_scraper_def shopify_indicators_def
        example_parser_def plain_page_def plain_dom_def has_sub_def find_first_def attr_has_def)
  have l: "links_loop shop_home_site ''https://shop.example''
     (anchors_with_href (html_parser shop_home_site shop_home)) Links_default = Some Links_default"
    using shop_home_links by (simp add: shop_home_facts)
  have i: "shopify_indicators shop_home (html_parser shop_home_site shop_home)"
    by (simp add: shop_home_facts)
  have h: "\<not> isl (fst (get_brand_context shop_home_site (new_scraper ''https://shop.example'')))"
    using homepage_only_run [OF shop_home_facts(1) i shop_home_facts(4) l] by simp
  from session_released_once [of down_site "new_scraper ''https://down.example''"]
    session_released_once [of plain_site "new_scraper ''https://plain.example''"]
    session_released_once [of shop_home_site "new_scraper ''https://shop.example''"]
    d p h
  show ?thesis by (simp add: new_scraper_def)
qed

section \<open>C6: the last matching anchor wins\<close>

text \<open>
  Claim C6. In \<open>_fetch_social_handles\<close>, for an anchor of the homepage that matches the pattern
  of a platform and after which no anchor matches it, the platform's field ends as the value
  derived from that anchor (the user name, else the href), whatever matched before. In
  \<open>_fetch_important_links\<close>, likewise, the category's field ends as the resolved URL of the
  last anchor whose href or text matches the category's pattern.
\<close>

theorem last_match_wins:
  "(soup s = Some d \<and> anchors_with_href d = pre @ a # post \<and>
    social_match p (lower_href a) \<and> (\<forall>b\<in>set post. \<not> social_match p (lower_href b))
    \<longrightarrow> (\<exists>so. fetch_social_handles E s = (Inr so, s) \<and>
              get_social p so = Some (username_or_href p (lower_href a)))) \<and>
   (soup s = Some d \<and> anchors_with_href d = pre' @ a' # post' \<and>
    link_hit t a' \<and> (\<forall>b\<in>set post'. \<not> link_hit t b) \<and>
    fetch_important_links E s = (Inr l, s')
    \<longrightarrow> get_link t l = urljoin E (base_url s) (lower_href a'))"
proof (intro conjI impI)
  assume h: "soup s = Some d \<and> anchors_with_href d = pre @ a # post \<and>
    social_match p (lower_href a) \<and> (\<forall>b\<in>set post. \<not> social_match p (lower_href b))"
  then have "fetch_social_handles E s = (Inr (socials_loop (pre @ a # post) Socials_default), s)"
    by (simp add: fetch_social_handles_def ensure_soup_def)
  moreover have "get_social p (socials_loop (pre @ a # post) Socials_default) =
                   Some (username_or_href p (lower_href a))"
    using h by (intro socials_loop_last) simp_all
  ultimately show "\<exists>so. fetch_social_handles E s = (Inr so, s) \<and>
              get_social p so = Some (username_or_href p (lower_href a))" by blast
next
  assume h: "soup s = Some d \<and> anchors_with_href d = pre' @ a' # post' \<and>
    link_hit t a' \<and> (\<forall>b\<in>set post'. \<not> link_hit t b) \<and>
    fetch_important_links E s = (Inr l, s')"
  then have "links_loop E (base_url s) (pre' @ a' # post') Links_default = Some l"
    by (auto simp: fetch_important_links_def ensure_soup_def split: option.splits)
  with h show "get_link t l = urljoin E (base_url s) (lower_href a')"
    by (intro links_loop_last [of t a' post' E "base_url s" pre' Links_default l]) simp_all
qed

theorem last_match_wins_witness:
  "soup social_scraper = Some social_home \<and>
   anchors_with_href social_home = [ig_first, contact_link] @ ig_second # [help_link] \<and>
   social_match Instagram (lower_href ig_first) \<and>
   social_match Instagram (lower_href ig_second) \<and>
   \<not> social_match Instagram (lower_href help_link) \<and>
   fetch_social_handles plain_site social_scraper =
     (Inr (Socials_default\<lparr>instagram := Some ''@second''\<rparr>), social_scraper) \<and>
   username_or_href Instagram (lower_href ig_first) = ''@first'' \<and>
   username_or_href Instagram (lower_href ig_second) = ''@second'' \<and>
   link_hit Contact_us contact_link \<and> link_hit Contact_us help_link \<and>
   fetch_important_links plain_site social_scraper =
     (Inr (Links_default\<lparr>contact_us := Some ''https://shop.example/pages/help''\<rparr>), social_scraper) \<and>
   urljoin plain_site (base_url social_scraper) (lower_href contact_link) =
     Some ''https://shop.example/pages/contact'' \<and>
   get_link Contact_us (Links_default\<lparr>contact_us := Some ''https://shop.example/pages/help''\<rparr>) =
     urljoin plain_site (base_url social_scraper) (lower_href help_link)"
proof -
  have s: "soup social_scraper = Some social_home"
    by (simp add: social_scraper_def)
  have a: "anchors_with_href social_home = [ig_first, contact_link, ig_second] @ help_link # []"
    using social_example_anchors by simp
  have m: "social_match Instagram (lower_href ig_first)" "social_match Instagram (lower_href ig_second)"
    "\<not> social_match Instagram (lower_href help_link)"
    by (simp_all add: social_example_defs)
  have u: "username_or_href Instagram (lower_href ig_first) = ''@first''"
    "username_or_href Instagram (lower_href ig_second) = ''@second''"
    by (simp_all add: social_example_defs username_or_href_def is_word_def is_letter_def
        in_range_def is_digit_def in_range_def)
  have k: "link_hit Contact_us contact_link" "link_hit Contact_us help_link"
    by (simp_all add: link_hit_def social_example_defs)
  have j: "urljoin plain_site (base_url social_scraper) (lower_href contact_link) =
     Some ''https://shop.example/pages/contact''"
    by (simp add: plain_site_def example_site_def example_urljoin_def social_example_defs)
  from last_match_wins [of social_scraper social_home "[ig_first, contact_link]" ig_second
      "[help_link]" Instagram plain_site "[ig_first, contact_link, ig_second]" help_link "[]"
      Contact_us "Links_default\<lparr>contact_us := Some ''https://shop.example/pages/help''\<rparr>"
      social_scraper]
    s a m u k j social_example_anchors social_example_run [of plain_site] links_example_run
  show ?thesis by simp
qed

section \<open>C7: the two FAQ methods are never merged\<close>

text \<open>
  Claim C7. The candidate paths of the FAQs are tried in order; a path that gives no page
  (its URL does not resolve, the request fails or the status is not 200), or a page on which
  neither method finds a pair, is passed over. At the first path whose page \<open>d\<close> has a pair,
  the loop stops and the requests made are those for the paths up to this one. When the
  accordion method finds at least one pair on \<open>d\<close>, the result is exactly the pairs of the
  accordion method, whatever the flat heuristic would find there; when the accordion method
  finds none on \<open>d\<close> and the flat heuristic finds some, the result is exactly the pairs of the
  flat heuristic. The results of the two methods are never put together.
\<close>

theorem faq_strategies_not_merged:
  assumes "faq_paths = pre @ path # post"
    and "faq_all_miss E (base_url s) (fetched s) pre"
    and "faq_page E (base_url s) (fetched s @ requested E (base_url s) pre) path = Some d"
  shows "(accordion_pairs d \<noteq> [] \<longrightarrow>
            fetch_faqs E s =
              (accordion_pairs d, after_requests s (requested E (base_url s) (pre @ [path])))) \<and>
         (accordion_pairs d = [] \<and> flat_pairs d \<noteq> [] \<longrightarrow>
            fetch_faqs E s =
              (flat_pairs d, after_requests s (requested E (base_url s) (pre @ [path]))))"
  using faqs_loop_hit [OF assms(2,3), of post] assms(1)
  by (simp add: fetch_faqs_def page_faqs_spec_def)

theorem faq_strategies_not_merged_witness:
  "faq_paths = [''/faq''] @ ''/pages/faq'' #
     [''/pages/faqs'', ''/pages/frequently-asked-questions''] \<and>
   faq_all_miss faq_site ''https://shop.example'' [] [''/faq''] \<and>
   faq_page faq_site ''https://shop.example'' [''https://shop.example/faq''] ''/pages/faq'' =
     Some faq_both_dom \<and>
   accordion_pairs faq_both_dom = [\<lparr>question = ''Q1'', answer = ''A1''\<rparr>] \<and>
   flat_pairs faq_both_dom =
     [\<lparr>question = ''Q1'', answer = ''A1''\<rparr>, \<lparr>question = ''Q2'', answer = ''A2''\<rparr>] \<and>
   fetch_faqs faq_site (new_scraper ''https://shop.example'') =
     ([\<lparr>question = ''Q1'', answer = ''A1''\<rparr>],
      (new_scraper ''https://shop.example'')
        \<lparr>session := True,
         fetched := [''https://shop.example/faq'', ''https://shop.example/pages/faq''],
         opened := 1\<rparr>) \<and>
   faq_all_miss faq_flat_site ''https://shop.example'' [] [''/faq''] \<and>
   faq_page faq_flat_site ''https://shop.example'' [''https://shop.example/faq''] ''/pages/faq'' =
     Some faq_flat_dom \<and>
   accordion_pairs faq_flat_dom = [] \<and>
   flat_pairs faq_flat_dom = [\<lparr>question = ''Q2'', answer = ''A2''\<rparr>] \<and>
   fetch_faqs faq_flat_site (new_scraper ''https://shop.example'') =
     ([\<lparr>question = ''Q2'', answer = ''A2''\<rparr>],
      (new_scraper ''https://shop.example'')
        \<lparr>session := True,
         fetched := [''https://shop.example/faq'', ''https://shop.example/pages/faq''],
         opened := 1\<rparr>)"
proof -
  let ?s = "new_scraper ''https://shop.example''"
  let ?post = "[''/pages/faqs'', ''/pages/frequently-asked-questions'']"
  have b: "base_url ?s = ''https://shop.example''" "fetched ?s = []"
    by (simp_all add: new_scraper_def)
  have p: "faq_paths = [''/faq''] @ ''/pages/faq'' # ?post"
    by (simp add: faq_paths_def)
  have m1: "faq_all_miss faq_site (base_url ?s) (fetched ?s) [''/faq'']"
    by (simp only: b faq_site_pages)
  have h1: "faq_page faq_site (base_url ?s)
      (fetched ?s @ requested faq_site (base_url ?s) [''/faq'']) ''/pages/faq'' = Some faq_both_dom"
    by (simp add: b faq_site_pages)
  have m2: "faq_all_miss faq_flat_site (base_url ?s) (fetched ?s) [''/faq'']"
    by (simp only: b faq_flat_site_pages)
  have h2: "faq_page faq_flat_site (base_url ?s)
      (fetched ?s @ requested faq_flat_site (base_url ?s) [''/faq'']) ''/pages/faq'' =
      Some faq_flat_dom"
    by (simp add: b faq_flat_site_pages)
  have a: "after_requests ?s [''https://shop.example/faq'', ''https://shop.example/pages/faq''] =
      ?s\<lparr>session := True,
         fetched := [''https://shop.example/faq'', ''https://shop.example/pages/faq''],
         opened := 1\<rparr>"
    by (simp add: after_requests_def init_session_def new_scraper_def)
  from faq_strategies_not_merged [OF p m1 h1] faq_strategies_not_merged [OF p m2 h2]
    p faq_site_pages faq_flat_site_pages faq_both_pairs faq_flat_pairs a
  show ?thesis
    by (simp add: b)
qed

section \<open>C8: a text-block field stops at the first page with a main content\<close>




section \<open>C9: a phone of the text is accepted when its cleaned string has 10 characters\<close>

text \<open>
  Claim C9, as amended. A phone is taken from the visible text only for a candidate of the
  phone pattern whose cleaned string (the candidate without whitespace, parentheses and
  hyphens) has length at least 10, and that cleaned string is made of digits alone or of a
  leading \<open>+\<close> and digits. Whitespace is the whitespace class of Python's \<open>re\<close> on a str, the
  no-break space included: a number written with no-break spaces is a candidate and is
  accepted.
  The \<open>+\<close> counts in the length: the counterexample is a text with \<open>+123456789\<close>, nine
  digits, which is accepted.
\<close>

theorem text_phone_accepted_only_if_long:
  assumes "phone \<in> phones_in_text txt"
  shows "\<exists>cand\<in>set (re_findall phone_here txt).
           phone = py_strip cand \<and> 10 \<le> length (clean_phone cand) \<and>
           (list_all is_digit (clean_phone cand) \<or>
            (\<exists>ds. clean_phone cand = CHR ''+'' # ds \<and> list_all is_digit ds))"
  using assms by (auto simp: phones_in_text_def dest: candidate_clean_shape)

theorem text_phone_accepted_only_if_long_witness:
  "''(555) 123-4567'' \<in> phones_in_text ''Tel (555) 123-4567 ext'' \<and>
   re_findall phone_here ''Tel (555) 123-4567 ext'' = ['' (555) 123-4567 ''] \<and>
   clean_phone '' (555) 123-4567 '' = ''5551234567'' \<and>
   (\<exists>cand\<in>set (re_findall phone_here ''Tel (555) 123-4567 ext'').
       ''(555) 123-4567'' = py_strip cand \<and> 10 \<le> length (clean_phone cand) \<and>
       (list_all is_digit (clean_phone cand) \<or>
        (\<exists>ds. clean_phone cand = CHR ''+'' # ds \<and> list_all is_digit ds))) \<and>
   phones_in_text (''Tel 555'' @ [CHR 0xA0] @ ''123'' @ [CHR 0xA0] @ ''4567 x'') =
     {''555'' @ [CHR 0xA0] @ ''123'' @ [CHR 0xA0] @ ''4567''} \<and>
   re_findall phone_here (''Tel 555'' @ [CHR 0xA0] @ ''123'' @ [CHR 0xA0] @ ''4567 x'') =
     ['' 555'' @ [CHR 0xA0] @ ''123'' @ [CHR 0xA0] @ ''4567 ''] \<and>
   clean_phone ('' 555'' @ [CHR 0xA0] @ ''123'' @ [CHR 0xA0] @ ''4567 '') = ''5551234567''"
proof -
  have h: "''(555) 123-4567'' \<in> phones_in_text ''Tel (555) 123-4567 ext''"
    by (simp add: phone_example)
  from text_phone_accepted_only_if_long [OF h] h phone_example nbsp_phone_example
  show ?thesis by simp
qed

theorem nine_digit_phone_accepted_counterexample:
  "re_findall phone_here ''Call +123456789 now'' = [''+123456789 ''] \<and>
   clean_phone ''+123456789 '' = ''+123456789'' \<and>
   \<not> list_all is_digit ''+123456789'' \<and>
   length (filter is_digit ''+123456789'') = 9 \<and>
   ''+123456789'' \<in> phones_in_text ''Call +123456789 now''"
  using short_phone_example by (simp add: is_digit_def in_range_def)

section \<open>C10: a feed that raises midway leaves its products in the list\<close>

text \<open>
  Claim C10. When a record of the first feed does not convert, the products of the records
  before it stay in the list, the second endpoint is requested, and the products of the second
  feed (those before its first record that does not convert, if there is one) are appended
  after them: the result mixes products of both feeds.
\<close>

theorem products_mix_both_endpoints:
  assumes "urljoin E (base_url s) ''/products.json?limit=250'' = Some u1"
    and "feed_items E (fetched s) u1 = Some items1"
    and "\<not> all_convert E (base_url s) items1"
    and "urljoin E (base_url s) ''/collections/all/products.json?limit=250'' = Some u2"
    and "feed_items E (fetched s @ [u1]) u2 = Some items2"
  shows "fst (fetch_products E s) =
           converted E (base_url s) items1 @ converted E (base_url s) items2 \<and>
         fetched (snd (fetch_products E s)) = fetched s @ [u1, u2]"
  using fetch_products_mixed [OF assms] by (simp add: after_requests_keeps)

theorem products_mix_both_endpoints_witness:
  "urljoin partial_site ''https://shop.example'' ''/products.json?limit=250'' =
     Some ''https://shop.example/products.json?limit=250'' \<and>
   feed_items partial_site [] ''https://shop.example/products.json?limit=250'' =
     Some [mug_json, hat_json, tee_json] \<and>
   \<not> all_convert partial_site ''https://shop.example'' [mug_json, hat_json, tee_json] \<and>
   urljoin partial_site ''https://shop.example'' ''/collections/all/products.json?limit=250'' =
     Some ''https://shop.example/collections/all/products.json?limit=250'' \<and>
   feed_items partial_site [''https://shop.example/products.json?limit=250'']
     ''https://shop.example/collections/all/products.json?limit=250'' = Some [cap_json] \<and>
   converted partial_site ''https://shop.example'' [mug_json, hat_json, tee_json] = [mug] \<and>
   converted partial_site ''https://shop.example'' [cap_json] = [cap] \<and>
   fst (fetch_products partial_site (new_scraper ''https://shop.example'')) = [mug, cap] \<and>
   fetched (snd (fetch_products partial_site (new_scraper ''https://shop.example''))) =
     [''https://shop.example/products.json?limit=250'',
      ''https://shop.example/collections/all/products.json?limit=250'']"
proof -
  let ?s = "new_scraper ''https://shop.example''"
  have b: "base_url ?s = ''https://shop.example''" "fetched ?s = []"
    by (simp_all add: new_scraper_def)
  have c: "\<not> all_convert partial_site ''https://shop.example'' [mug_json, hat_json, tee_json]"
    "converted partial_site ''https://shop.example'' [mug_json, hat_json, tee_json] = [mug]"
    "converted partial_site ''https://shop.example'' [cap_json] = [cap]"
    by (simp_all add: partial_site_def converted_examples)
  from products_mix_both_endpoints [of partial_site ?s
      "''https://shop.example/products.json?limit=250''" "[mug_json, hat_json, tee_json]"
      "''https://shop.example/collections/all/products.json?limit=250''" "[cap_json]"]
    partial_site_feed b c
  show ?thesis by simp
qed

end
